theory Spec2Isabelle
  imports
    Main
    "HOL-Library.Char_ord"
    "HOL-Library.List_Lexorder"
    "HOL-Library.Product_Lexorder"
    "HOL-Library.Multiset"
begin

section \<open>Python strings\<close>

text \<open>
  A Python \<^verbatim>\<open>str\<close> is a \<^typ>\<open>string\<close>; a \<^typ>\<open>char\<close> stands for the code point
  with the same number (0 to 255), so the model covers the strings over Latin-1.
  \<^verbatim>\<open>py_ord\<close> is Python's \<^verbatim>\<open>ord\<close>. Strings compare as Python compares them, code
  point by code point (the lexicographic order of \<open>List_Lexorder\<close> over \<open>Char_ord\<close>).
\<close>

definition py_ord :: "char \<Rightarrow> nat" where
  "py_ord c = of_char c"

definition is_space :: "char \<Rightarrow> bool" where
  \<comment> \<open>\<^verbatim>\<open>str.isspace\<close>, also the class \<^verbatim>\<open>\s\<close> of \<^verbatim>\<open>re\<close> on a \<^verbatim>\<open>str\<close>\<close>
  "is_space c =
     (let n = py_ord c
      in (9 \<le> n \<and> n \<le> 13) \<or> (28 \<le> n \<and> n \<le> 32) \<or> n = 133 \<or> n = 160)"

definition is_digit :: "char \<Rightarrow> bool" where
  \<comment> \<open>the class \<^verbatim>\<open>\d\<close>: the decimal digits, which below 256 are 0 to 9\<close>
  "is_digit c = (let n = py_ord c in 48 \<le> n \<and> n \<le> 57)"

definition is_upper_AZ :: "char \<Rightarrow> bool" where
  "is_upper_AZ c = (let n = py_ord c in 65 \<le> n \<and> n \<le> 90)"

definition is_lower_az :: "char \<Rightarrow> bool" where
  "is_lower_az c = (let n = py_ord c in 97 \<le> n \<and> n \<le> 122)"

definition is_alpha_azAZ :: "char \<Rightarrow> bool" where
  "is_alpha_azAZ c = (is_lower_az c \<or> is_upper_AZ c)"

definition lower_char :: "char \<Rightarrow> char" where
  "lower_char c =
     (let n = py_ord c
      in if (65 \<le> n \<and> n \<le> 90) \<or> (192 \<le> n \<and> n \<le> 222 \<and> n \<noteq> 215)
         then char_of (n + 32) else c)"

definition lower :: "string \<Rightarrow> string" where
  \<comment> \<open>\<^verbatim>\<open>str.lower\<close>\<close>
  "lower s = map lower_char s"

definition upper_char :: "char \<Rightarrow> string" where
  \<comment> \<open>code point 223 becomes two letters; 181 and 255, whose upper case lies beyond
      Latin-1, are kept\<close>
  "upper_char c =
     (let n = py_ord c
      in if (97 \<le> n \<and> n \<le> 122) \<or> (224 \<le> n \<and> n \<le> 254 \<and> n \<noteq> 247)
         then [char_of (n - 32)]
         else if n = 223 then ''SS'' else [c])"

definition upper :: "string \<Rightarrow> string" where
  \<comment> \<open>\<^verbatim>\<open>str.upper\<close>\<close>
  "upper s = concat (map upper_char s)"

definition strip :: "string \<Rightarrow> string" where
  \<comment> \<open>\<^verbatim>\<open>str.strip()\<close>\<close>
  "strip s = rev (dropWhile is_space (rev (dropWhile is_space s)))"

definition rstrip_chars :: "string \<Rightarrow> string \<Rightarrow> string" where
  \<comment> \<open>\<^verbatim>\<open>s.rstrip(chars)\<close>\<close>
  "rstrip_chars chars s = rev (dropWhile (\<lambda>c. c \<in> set chars) (rev s))"

definition startswith :: "string \<Rightarrow> string \<Rightarrow> bool" where
  \<comment> \<open>\<^verbatim>\<open>s.startswith(p)\<close>\<close>
  "startswith s p = (take (length p) s = p)"

definition endswith :: "string \<Rightarrow> string \<Rightarrow> bool" where
  \<comment> \<open>\<^verbatim>\<open>s.endswith(x)\<close>\<close>
  "endswith s x = (length x \<le> length s \<and> drop (length s - length x) s = x)"

fun contains :: "string \<Rightarrow> string \<Rightarrow> bool" where
  \<comment> \<open>\<^verbatim>\<open>sub in s\<close>\<close>
  "contains sub [] = (sub = [])"
| "contains sub (c # cs) = (startswith (c # cs) sub \<or> contains sub cs)"

function str_replace :: "string \<Rightarrow> string \<Rightarrow> string \<Rightarrow> string" where
  \<comment> \<open>\<^verbatim>\<open>s.replace(old, new)\<close>: the occurrences of \<open>old\<close> from the left, not overlapping\<close>
  "str_replace old new s =
     (if old = [] then new @ concat (map (\<lambda>c. c # new) s)
      else if s = [] then []
      else if startswith s old then new @ str_replace old new (drop (length old) s)
      else hd s # str_replace old new (tl s))"
  by pat_completeness auto
termination
  by (relation "measure (\<lambda>(old, new, s). length s)") auto

declare str_replace.simps [simp del]

section \<open>The regular expressions of the program\<close>

text \<open>
  The patterns the program hands to \<^verbatim>\<open>re\<close> are sequences of character classes, greedy
  repetitions of a class, the anchor \<^verbatim>\<open>$\<close> and capturing groups of such. A matcher
  for this fragment: \<open>match_items p s\<close> lists every way \<open>p\<close> matches a prefix of \<open>s\<close>,
  in the order in which the backtracking engine of \<^verbatim>\<open>re\<close> tries them (a greedy
  repetition tries its longest run first), each with the text of its groups, the text
  matched and the rest of the input. The first entry is the match \<^verbatim>\<open>re\<close> reports.
\<close>

datatype atom =
    One "char \<Rightarrow> bool"
  | AtLeast nat "char \<Rightarrow> bool"
  | Exactly nat "char \<Rightarrow> bool"
  | EndOfString

datatype item = A atom | G "atom list"

type_synonym pattern = "item list"

type_synonym match = "string list \<times> string \<times> string"

definition match_atom :: "atom \<Rightarrow> string \<Rightarrow> (string \<times> string) list" where
  "match_atom a s =
     (case a of
        One P \<Rightarrow> (case s of [] \<Rightarrow> [] | c # cs \<Rightarrow> if P c then [([c], cs)] else [])
      | AtLeast n P \<Rightarrow>
          map (\<lambda>k. (take k s, drop k s)) (rev [n ..< Suc (length (takeWhile P s))])
      | Exactly n P \<Rightarrow>
          (if n \<le> length (takeWhile P s) then [(take n s, drop n s)] else [])
      | EndOfString \<Rightarrow> (if s = [] \<or> s = [CHR 0x0A] then [([], s)] else []))"

fun match_atoms :: "atom list \<Rightarrow> string \<Rightarrow> (string \<times> string) list" where
  "match_atoms [] s = [([], s)]"
| "match_atoms (a # as) s =
     concat (map (\<lambda>(m1, r1). map (\<lambda>(m2, r2). (m1 @ m2, r2)) (match_atoms as r1))
                 (match_atom a s))"

fun match_items :: "pattern \<Rightarrow> string \<Rightarrow> match list" where
  "match_items [] s = [([], [], s)]"
| "match_items (A a # p) s =
     concat (map (\<lambda>(m1, r1). map (\<lambda>(gs, m2, r2). (gs, m1 @ m2, r2)) (match_items p r1))
                 (match_atom a s))"
| "match_items (G as # p) s =
     concat (map (\<lambda>(m1, r1). map (\<lambda>(gs, m2, r2). (m1 # gs, m1 @ m2, r2)) (match_items p r1))
                 (match_atoms as s))"

definition re_match :: "pattern \<Rightarrow> string \<Rightarrow> match option" where
  \<comment> \<open>\<^verbatim>\<open>re.match\<close>: at the start of the input\<close>
  "re_match p s = (case match_items p s of [] \<Rightarrow> None | m # _ \<Rightarrow> Some m)"

fun re_search :: "pattern \<Rightarrow> string \<Rightarrow> match option" where
  \<comment> \<open>\<^verbatim>\<open>re.search\<close>: at the leftmost position where the pattern matches\<close>
  "re_search p [] = re_match p []"
| "re_search p (c # cs) =
     (case re_match p (c # cs) of Some m \<Rightarrow> Some m | None \<Rightarrow> re_search p cs)"

text \<open>
  \<^verbatim>\<open>re.findall\<close> and \<^verbatim>\<open>re.sub\<close> scan from the left and go on behind each match. No
  pattern of the program matches the empty string; at an empty match both functions
  below step over one character.
\<close>

function re_findall :: "pattern \<Rightarrow> string \<Rightarrow> string list" where
  "re_findall p s =
     (if s = [] then []
      else case re_match p s of
             None \<Rightarrow> re_findall p (tl s)
           | Some (gs, m, r) \<Rightarrow>
               (if m = [] then re_findall p (tl s)
                else m # re_findall p (drop (length m) s)))"
  by pat_completeness auto
termination
  by (relation "measure (\<lambda>(p, s). length s)") auto

declare re_findall.simps [simp del]

function re_sub :: "pattern \<Rightarrow> string \<Rightarrow> string \<Rightarrow> string" where
  "re_sub p repl s =
     (if s = [] then []
      else case re_match p s of
             None \<Rightarrow> hd s # re_sub p repl (tl s)
           | Some (gs, m, r) \<Rightarrow>
               (if m = [] then hd s # re_sub p repl (tl s)
                else repl @ re_sub p repl (drop (length m) s)))"
  by pat_completeness auto
termination
  by (relation "measure (\<lambda>(p, repl, s). length s)") auto

declare re_sub.simps [simp del]

datatype error = TypeError | AttributeError | IndexError | KeyError

definition group :: "match \<Rightarrow> nat \<Rightarrow> error + string" where
  \<comment> \<open>\<^verbatim>\<open>m.group(i)\<close> for \<open>i \<ge> 1\<close>; a group the pattern does not have raises\<close>
  "group m i =
     (case m of (gs, _, _) \<Rightarrow>
        if 1 \<le> i \<and> i \<le> length gs then Inr (gs ! (i - 1)) else Inl IndexError)"

section \<open>Constants\<close>

definition FAKE_PHONE_PATTERNS :: "pattern list" where
  \<comment> \<open>\<^verbatim>\<open>[r'555', r'123-456', r'000-000', r'111-111']\<close>: every character of these
      patterns stands for itself\<close>
  "FAKE_PHONE_PATTERNS =
     map (map (\<lambda>c. A (One (\<lambda>x. x = c)))) [''555'', ''123-456'', ''000-000'', ''111-111'']"

definition FAKE_EMAIL_DOMAINS :: "string list" where
  "FAKE_EMAIL_DOMAINS =
     [''example.com'', ''test.com'', ''demo.com'', ''fake.com'', ''sample.com'', ''domain.com'']"

definition FAKE_EMAIL_PREFIXES :: "string list" where
  "FAKE_EMAIL_PREFIXES = [''test@'', ''demo@'', ''example@'', ''fake@'', ''noreply@'']"

definition DEFAULT_MIN_BUSINESSES :: int where
  "DEFAULT_MIN_BUSINESSES = 500"

text \<open>Delays are in milliseconds: \<^verbatim>\<open>PAGINATION_DELAY = 2.0\<close>, \<^verbatim>\<open>REQUEST_DELAY = 0.1\<close>
  and the \<^verbatim>\<open>time.sleep(60)\<close> of the search loop.\<close>

definition PAGINATION_DELAY :: nat where
  "PAGINATION_DELAY = 2000"

definition REQUEST_DELAY :: nat where
  "REQUEST_DELAY = 100"

definition QUOTA_COOLDOWN :: nat where
  "QUOTA_COOLDOWN = 60000"

section \<open>The validators\<close>

definition NOT_DIGIT :: pattern where
  \<comment> \<open>\<^verbatim>\<open>r'[^\d]'\<close>\<close>
  "NOT_DIGIT = [A (One (\<lambda>c. \<not> is_digit c))]"

definition is_fake_phone :: "string \<Rightarrow> bool" where
  "is_fake_phone phone =
     (if phone = [] then False
      else let norm = re_sub NOT_DIGIT [] phone
           in if contains ''555'' norm then True
              else if 7 \<le> length norm \<and> length (remdups norm) = 1 then True
              else list_ex (\<lambda>p. re_search p phone \<noteq> None) FAKE_PHONE_PATTERNS)"

definition is_fake_email :: "string \<Rightarrow> bool" where
  "is_fake_email email =
     (if email = [] then False
      else let e = lower email
           in list_ex (\<lambda>d. endswith e (''@'' @ d)) FAKE_EMAIL_DOMAINS
              \<or> list_ex (\<lambda>p. startswith e p) FAKE_EMAIL_PREFIXES)"

definition is_comma :: "char \<Rightarrow> bool" where
  "is_comma c = (c = CHR '','')"

definition CITY_STATE_ZIP :: pattern where
  \<comment> \<open>\<^verbatim>\<open>r',\s*([^,]+),\s*([A-Z]{2})\s*\d{5}'\<close>\<close>
  "CITY_STATE_ZIP =
     [A (One is_comma), A (AtLeast 0 is_space), G [AtLeast 1 (\<lambda>c. \<not> is_comma c)],
      A (One is_comma), A (AtLeast 0 is_space), G [Exactly 2 is_upper_AZ],
      A (AtLeast 0 is_space), A (Exactly 5 is_digit)]"

definition CITY_STATE_END :: pattern where
  \<comment> \<open>\<^verbatim>\<open>r',\s*([^,]+),\s*([A-Z]{2})\s*$'\<close>\<close>
  "CITY_STATE_END =
     [A (One is_comma), A (AtLeast 0 is_space), G [AtLeast 1 (\<lambda>c. \<not> is_comma c)],
      A (One is_comma), A (AtLeast 0 is_space), G [Exactly 2 is_upper_AZ],
      A (AtLeast 0 is_space), A EndOfString]"

fun first_city_state :: "pattern list \<Rightarrow> string \<Rightarrow> error + (string \<times> string)" where
  \<comment> \<open>the \<^verbatim>\<open>for p in [...]\<close> of \<^verbatim>\<open>extract_city_state\<close>\<close>
  "first_city_state [] address = Inr ([], [])"
| "first_city_state (p # ps) address =
     (case re_search p address of
        None \<Rightarrow> first_city_state ps address
      | Some m \<Rightarrow>
          (case group m 1 of
             Inl e \<Rightarrow> Inl e
           | Inr g1 \<Rightarrow>
               (case group m 2 of
                  Inl e \<Rightarrow> Inl e
                | Inr g2 \<Rightarrow> Inr (strip g1, g2))))"

definition extract_city_state :: "string \<Rightarrow> error + (string \<times> string)" where
  "extract_city_state address =
     (if address = [] then Inr ([], [])
      else first_city_state [CITY_STATE_ZIP, CITY_STATE_END] address)"

definition is_alnum :: "char \<Rightarrow> bool" where
  "is_alnum c = (is_alpha_azAZ c \<or> is_digit c)"

definition EMAIL_RE :: pattern where
  \<comment> \<open>\<^verbatim>\<open>r'[a-zA-Z0-9._%+-]+@[a-zA-Z0-9.-]+\.[a-zA-Z]{2,}'\<close>\<close>
  "EMAIL_RE =
     [A (AtLeast 1 (\<lambda>c. is_alnum c \<or> c \<in> set ''._%+-'')),
      A (One (\<lambda>c. c = CHR ''@'')),
      A (AtLeast 1 (\<lambda>c. is_alnum c \<or> c \<in> set ''.-'')),
      A (One (\<lambda>c. c = CHR ''.'')),
      A (AtLeast 2 is_alpha_azAZ)]"

text \<open>
  Python does not fix the order in which a \<^verbatim>\<open>set\<close> of strings is iterated; it follows
  the hash values, which change from process to process, and the history of the set.
  The model takes a ranking \<open>h\<close> as a parameter and iterates the distinct elements by
  increasing rank, so that every order is that of some \<open>h\<close>. The environment below
  gives each call its own ranking.
\<close>

definition set_iter :: "(string \<Rightarrow> nat) \<Rightarrow> string list \<Rightarrow> string list" where
  \<comment> \<open>the elements of \<^verbatim>\<open>set(xs)\<close>, as a \<^verbatim>\<open>for\<close> loop sees them\<close>
  "set_iter h xs = sort_key h (remdups xs)"

definition extract_emails :: "(string \<Rightarrow> nat) \<Rightarrow> string \<Rightarrow> string list" where
  "extract_emails h text =
     (if text = [] then []
      else filter (\<lambda>e. \<not> is_fake_email e) (set_iter h (re_findall EMAIL_RE (lower text))))"

record Business =
  business_name :: string
  phone_number :: string
  email :: string
  website :: string
  address :: string
  city :: string
  state :: string
  search_keyword :: string
  google_place_id :: string
  email_source :: string
  data_completeness_score :: int

definition calc_completeness :: "Business \<Rightarrow> int" where
  "calc_completeness b =
     sum_list (map (\<lambda>f. 1)
       (filter (\<lambda>f. f \<noteq> [] \<and> strip f \<noteq> [])
          [phone_number b, email b, website b, address b]))"

section \<open>The outside world\<close>

text \<open>
  The Places API and the scraped web sites answer as they please, and differently from
  call to call. The model keeps a trace of every request and every sleep; an environment
  gives, for the number of events so far and the request, the answer. Every sequence of
  answers a run can meet is that of some environment. The theorems below hold for all
  of them.

  A coordinate is only ever copied into a request, so it is kept as the text of its
  literal. Answers are well-typed: a field that is present holds a string.
\<close>

type_synonym coord = string

datatype event =
    NearbySearch coord coord string "string option"
  | GetDetails string
  | HttpGet string
  | Sleep nat

record place =
  place_id :: string
  place_name :: string
  vicinity :: string

text \<open>A key of \<^verbatim>\<open>place\<close> that is absent reads as the empty string, the default of
  every \<^verbatim>\<open>place.get\<close> of the program. In the other answers an absent key is \<open>None\<close>.\<close>

record nearby_data =
  nd_status :: "string option"
  nd_results :: "place list"
  next_page_token :: "string option"

datatype nearby_reply = NearbyFailed | NearbyJson nearby_data

record details =
  det_name :: "string option"
  det_formatted_phone_number :: "string option"
  det_formatted_address :: "string option"
  det_website :: "string option"

datatype details_reply =
    DetailsFailed
  | DetailsBadJson
  | DetailsJson "details option"

datatype http_reply = HttpFailed | HttpResponse int string

record env =
  nearby_reply_at :: "nat \<Rightarrow> coord \<Rightarrow> coord \<Rightarrow> string \<Rightarrow> string option \<Rightarrow> nearby_reply"
  details_reply_at :: "nat \<Rightarrow> string \<Rightarrow> details_reply"
  http_reply_at :: "nat \<Rightarrow> string \<Rightarrow> http_reply"
  str_hash :: "nat \<Rightarrow> string \<Rightarrow> nat"

subsection \<open>scrape_email\<close>

fun scrape_pages :: "env \<Rightarrow> event list \<Rightarrow> string list \<Rightarrow> string option \<times> event list" where
  \<comment> \<open>the \<^verbatim>\<open>for page in [...]\<close> of \<^verbatim>\<open>scrape_email\<close>; an exception of the request is
      swallowed\<close>
  "scrape_pages env tr [] = (None, tr)"
| "scrape_pages env tr (page # pages) =
     (let tr' = tr @ [HttpGet page]
      in case http_reply_at env (length tr) page of
           HttpFailed \<Rightarrow> scrape_pages env tr' pages
         | HttpResponse status_code body \<Rightarrow>
             if status_code = 200
             then (case extract_emails (str_hash env (length tr)) body of
                     [] \<Rightarrow> scrape_pages env tr' pages
                   | e # _ \<Rightarrow> (Some e, tr'))
             else scrape_pages env tr' pages)"

definition scrape_email :: "env \<Rightarrow> event list \<Rightarrow> string \<Rightarrow> string option \<times> event list" where
  "scrape_email env tr site =
     (if site = [] then (None, tr)
      else let site' = (if startswith site ''http://'' \<or> startswith site ''https://''
                        then site else ''https://'' @ site)
           in scrape_pages env tr
                [site', rstrip_chars ''/'' site' @ ''/contact'',
                 rstrip_chars ''/'' site' @ ''/about''])"

subsection \<open>PlacesClient\<close>

record PlacesClient =
  quota_exceeded :: bool

definition failed_search :: nearby_data where
  \<comment> \<open>\<^verbatim>\<open>{'status': 'ERROR', 'results': []}\<close>\<close>
  "failed_search = \<lparr>nd_status = Some ''ERROR'', nd_results = [], next_page_token = None\<rparr>"

definition nearby_search ::
  "env \<Rightarrow> PlacesClient \<times> event list \<Rightarrow> coord \<Rightarrow> coord \<Rightarrow> string \<Rightarrow> string option
     \<Rightarrow> nearby_data \<times> PlacesClient \<times> event list" where
  "nearby_search env ct lat' lng' keyword page_token =
     (let (cl, tr) = ct;
          pagetoken = (case page_token of None \<Rightarrow> None
                       | Some t \<Rightarrow> if t = [] then None else Some t);
          tr' = tr @ [NearbySearch lat' lng' keyword pagetoken]
      in case nearby_reply_at env (length tr) lat' lng' keyword pagetoken of
           NearbyFailed \<Rightarrow> (failed_search, cl, tr')
         | NearbyJson data \<Rightarrow>
             (data,
              if nd_status data = Some ''OVER_QUERY_LIMIT''
              then cl\<lparr>quota_exceeded := True\<rparr> else cl,
              tr'))"

definition no_details :: details where
  "no_details = \<lparr>det_name = None, det_formatted_phone_number = None,
                  det_formatted_address = None, det_website = None\<rparr>"

definition get_details :: "env \<Rightarrow> event list \<Rightarrow> string \<Rightarrow> details option \<times> event list" where
  \<comment> \<open>the \<^verbatim>\<open>'result'\<close> of the answer, \<open>None\<close> when the answer has none; the request
      that fails skips the sleep\<close>
  "get_details env tr pid =
     (let tr' = tr @ [GetDetails pid]
      in case details_reply_at env (length tr) pid of
           DetailsFailed \<Rightarrow> (Some no_details, tr')
         | DetailsBadJson \<Rightarrow> (Some no_details, tr' @ [Sleep REQUEST_DELAY])
         | DetailsJson r \<Rightarrow> (r, tr' @ [Sleep REQUEST_DELAY]))"

section \<open>DiscoveryEngine\<close>

record Stats =
  total_searched :: nat
  duplicates :: nat
  fake_phones :: nat
  fake_emails :: nat
  validation_failed :: nat
  emails_scraped :: nat

text \<open>
  \<^verbatim>\<open>self.businesses\<close> is a \<^verbatim>\<open>dict\<close>, which keeps its keys in the order of their
  first insertion: an association list. \<^verbatim>\<open>self.seen_domains\<close> is only looked up: a map.
\<close>

record DiscoveryEngine =
  client :: PlacesClient
  businesses :: "(string \<times> Business) list"
  seen_domains :: "string \<rightharpoonup> string"
  stats :: Stats
  trace :: "event list"

definition init_engine :: DiscoveryEngine where
  \<comment> \<open>\<^verbatim>\<open>DiscoveryEngine.__init__\<close>\<close>
  "init_engine =
     \<lparr>client = \<lparr>quota_exceeded = False\<rparr>, businesses = [], seen_domains = Map.empty,
      stats = \<lparr>total_searched = 0, duplicates = 0, fake_phones = 0, fake_emails = 0,
               validation_failed = 0, emails_scraped = 0\<rparr>,
      trace = []\<rparr>"

definition dict_keys :: "('k \<times> 'v) list \<Rightarrow> 'k set" where
  "dict_keys d = fst ` set d"

definition dict_values :: "('k \<times> 'v) list \<Rightarrow> 'v list" where
  "dict_values d = map snd d"

definition dict_set :: "'k \<Rightarrow> 'v \<Rightarrow> ('k \<times> 'v) list \<Rightarrow> ('k \<times> 'v) list" where
  \<comment> \<open>\<^verbatim>\<open>d[k] = v\<close>: a key that is there keeps its place\<close>
  "dict_set k v d =
     (if k \<in> dict_keys d then map (\<lambda>(k', v'). if k' = k then (k', v) else (k', v')) d
      else d @ [(k, v)])"

subsection \<open>_get_domain\<close>

text \<open>
  \<^verbatim>\<open>urlparse(url).netloc\<close> of the standard library: behind the scheme, if the text has
  one, the authority is what stands between \<^verbatim>\<open>//\<close> and the first of \<^verbatim>\<open>/ ? #\<close>;
  brackets that do not pair raise \<^verbatim>\<open>ValueError\<close>, here \<open>None\<close>. (The checks that later
  releases of the library add, on control characters and on what stands between the
  brackets, are not modelled.) The theorems on the engine use nothing of this function
  but its type; only the evaluations of \<open>get_domain\<close> at given URLs run it.
\<close>

definition is_scheme_char :: "char \<Rightarrow> bool" where
  "is_scheme_char c = (is_alnum c \<or> c \<in> set ''+-.'')"

definition urlparse_netloc :: "string \<Rightarrow> string option" where
  "urlparse_netloc url =
     (let scheme = takeWhile (\<lambda>c. c \<noteq> CHR '':'') url;
          rest = (if scheme \<noteq> [] \<and> length scheme < length url
                     \<and> is_alpha_azAZ (hd url) \<and> list_all is_scheme_char scheme
                  then drop (Suc (length scheme)) url else url)
      in if take 2 rest = ''//''
         then let netloc = takeWhile (\<lambda>c. c \<notin> set ''/?#'') (drop 2 rest)
              in if (CHR ''['' \<in> set netloc \<and> CHR '']'' \<notin> set netloc)
                    \<or> (CHR '']'' \<in> set netloc \<and> CHR ''['' \<notin> set netloc)
                 then None else Some netloc
         else Some [])"

definition get_domain :: "string \<Rightarrow> string option" where
  \<comment> \<open>\<open>None\<close> is Python's \<^verbatim>\<open>None\<close>, also what the \<^verbatim>\<open>except\<close> returns\<close>
  "get_domain url =
     (if url = [] then None
      else case urlparse_netloc (if startswith url ''http'' then url else ''https://'' @ url) of
             None \<Rightarrow> None
           | Some netloc \<Rightarrow> Some (str_replace ''www.'' [] (lower netloc)))"

subsection \<open>_process_place\<close>

definition count_duplicate :: "DiscoveryEngine \<Rightarrow> DiscoveryEngine" where
  \<comment> \<open>\<^verbatim>\<open>self.stats['duplicates'] += 1\<close>\<close>
  "count_duplicate e = e\<lparr>stats := (stats e)\<lparr>duplicates := duplicates (stats e) + 1\<rparr>\<rparr>"

text \<open>
  \<^verbatim>\<open>_process_place\<close> builds a Business \<^verbatim>\<open>b\<close> and then runs four statements on it,
  each of which changes \<^verbatim>\<open>b\<close> and the counters of the engine: the check of the phone
  number, the scraping of the web site, the check of the email address, and the score
  with its threshold. Each is a function of \<^verbatim>\<open>b\<close> and the engine here.
\<close>

definition check_phone :: "Business \<Rightarrow> DiscoveryEngine \<Rightarrow> Business \<times> DiscoveryEngine" where
  \<comment> \<open>\<^verbatim>\<open>if is_fake_phone(b.phone_number): ...\<close>\<close>
  "check_phone b e =
     (if is_fake_phone (phone_number b)
      then (b\<lparr>phone_number := []\<rparr>,
            e\<lparr>stats := (stats e)\<lparr>fake_phones := fake_phones (stats e) + 1\<rparr>\<rparr>)
      else (b, e))"

definition scrape_website ::
  "env \<Rightarrow> string \<Rightarrow> Business \<Rightarrow> DiscoveryEngine \<Rightarrow> Business \<times> DiscoveryEngine" where
  \<comment> \<open>\<^verbatim>\<open>if website: email = scrape_email(website); if email: ...\<close>\<close>
  "scrape_website env site b e =
     (if site \<noteq> []
      then let (scraped, tr) = scrape_email env (trace e) site;
               e' = e\<lparr>trace := tr\<rparr>
           in case scraped of
                None \<Rightarrow> (b, e')
              | Some em \<Rightarrow>
                  if em \<noteq> []
                  then (b\<lparr>email := em, email_source := ''website_scrape''\<rparr>,
                        e'\<lparr>stats := (stats e')\<lparr>emails_scraped :=
                              emails_scraped (stats e') + 1\<rparr>\<rparr>)
                  else (b, e')
      else (b, e))"

definition check_email :: "Business \<Rightarrow> DiscoveryEngine \<Rightarrow> Business \<times> DiscoveryEngine" where
  \<comment> \<open>\<^verbatim>\<open>if is_fake_email(b.email): ...\<close>\<close>
  "check_email b e =
     (if is_fake_email (email b)
      then (b\<lparr>email := [], email_source := []\<rparr>,
            e\<lparr>stats := (stats e)\<lparr>fake_emails := fake_emails (stats e) + 1\<rparr>\<rparr>)
      else (b, e))"

definition check_completeness ::
  "Business \<Rightarrow> DiscoveryEngine \<Rightarrow> Business option \<times> DiscoveryEngine" where
  \<comment> \<open>the score, the threshold and the \<^verbatim>\<open>return\<close> at the end of the method\<close>
  "check_completeness b e =
     (let b' = b\<lparr>data_completeness_score := calc_completeness b\<rparr>
      in if data_completeness_score b' < 2
         then (None,
               e\<lparr>stats := (stats e)\<lparr>validation_failed := validation_failed (stats e) + 1\<rparr>\<rparr>)
         else (Some b', e))"

definition get_or :: "'a option \<Rightarrow> 'a \<Rightarrow> 'a" where
  \<comment> \<open>\<^verbatim>\<open>d.get(key, default)\<close>, for the field of the key\<close>
  "get_or v dflt = (case v of None \<Rightarrow> dflt | Some x \<Rightarrow> x)"

definition process_place ::
  "env \<Rightarrow> DiscoveryEngine \<Rightarrow> place \<Rightarrow> string \<Rightarrow> error + (Business option \<times> DiscoveryEngine)" where
  "process_place env e pl keyword =
     (let pid = place_id pl
      in if pid = [] \<or> pid \<in> dict_keys (businesses e) then Inr (None, count_duplicate e)
         else
           let (result, tr1) = get_details env (trace e) pid;
               e1 = e\<lparr>trace := tr1\<rparr>;
               d = get_or result no_details;
               site = get_or (det_website d) [];
               domain = get_domain site
           in if (case domain of None \<Rightarrow> False
                  | Some dm \<Rightarrow> dm \<noteq> [] \<and> dm \<in> dom (seen_domains e1))
              then Inr (None, count_duplicate e1)
              else
                let b = \<lparr>business_name = get_or (det_name d) (place_name pl),
                         phone_number = get_or (det_formatted_phone_number d) [],
                         email = [],
                         website = site,
                         address = get_or (det_formatted_address d) (vicinity pl),
                         city = [], state = [],
                         search_keyword = keyword, google_place_id = pid,
                         email_source = [], data_completeness_score = 0\<rparr>
                in case extract_city_state (address b) of
                     Inl err \<Rightarrow> Inl err
                   | Inr (c, s) \<Rightarrow>
                       let (b2, e2) = check_phone (b\<lparr>city := c, state := s\<rparr>) e1;
                           (b3, e3) = scrape_website env site b2 e2;
                           (b4, e4) = check_email b3 e3
                       in Inr (check_completeness b4 e4))"

subsection \<open>_search_location\<close>

fun process_results ::
  "env \<Rightarrow> DiscoveryEngine \<Rightarrow> place list \<Rightarrow> string \<Rightarrow> error + DiscoveryEngine" where
  \<comment> \<open>the \<^verbatim>\<open>for place in resp.get('results', [])\<close> of \<^verbatim>\<open>_search_location\<close>\<close>
  "process_results env e [] keyword = Inr e"
| "process_results env e (pl # pls) keyword =
     (let e0 = e\<lparr>stats := (stats e)\<lparr>total_searched := total_searched (stats e) + 1\<rparr>\<rparr>
      in case process_place env e0 pl keyword of
           Inl err \<Rightarrow> Inl err
         | Inr (None, e1) \<Rightarrow> process_results env e1 pls keyword
         | Inr (Some b, e1) \<Rightarrow>
             (let e2 = e1\<lparr>businesses := dict_set (google_place_id b) b (businesses e1)\<rparr>;
                  e3 = (case get_domain (website b) of
                          None \<Rightarrow> e2
                        | Some dm \<Rightarrow>
                            if dm \<noteq> []
                            then e2\<lparr>seen_domains := (seen_domains e2)(dm \<mapsto> google_place_id b)\<rparr>
                            else e2)
              in process_results env e3 pls keyword))"

record city_data =
  cd_city :: "string option"
  lat :: coord
  lng :: coord

text \<open>
  The \<^verbatim>\<open>while True\<close> of \<^verbatim>\<open>_search_location\<close> goes round once per answer of the
  Places API, and the API decides whether another page follows: nothing bounds the
  number of rounds. The loop takes fuel, one unit per round; \<open>None\<close> is a loop that has
  not come to its end within the fuel. \<open>Some (Inl err)\<close> is an exception that leaves the
  method.
\<close>

fun search_location_loop ::
  "nat \<Rightarrow> env \<Rightarrow> DiscoveryEngine \<Rightarrow> city_data \<Rightarrow> string \<Rightarrow> string option
     \<Rightarrow> (error + DiscoveryEngine) option" where
  "search_location_loop 0 env e cd keyword page_token = None"
| "search_location_loop (Suc fuel) env e cd keyword page_token =
     (let (resp, cl, tr) =
            nearby_search env (client e, trace e) (lat cd) (lng cd) keyword page_token;
          e1 = e\<lparr>client := cl, trace := tr\<rparr>;
          status = (case nd_status resp of None \<Rightarrow> ''ERROR'' | Some st \<Rightarrow> st)
      in if status = ''OVER_QUERY_LIMIT''
         then let e2 = e1\<lparr>trace := trace e1 @ [Sleep QUOTA_COOLDOWN]\<rparr>
              in if quota_exceeded (client e2) then Some (Inr e2)
                 else search_location_loop fuel env e2 cd keyword page_token
         else if status \<notin> set [''OK'', ''ZERO_RESULTS''] then Some (Inr e1)
         else case process_results env e1 (nd_results resp) keyword of
                Inl err \<Rightarrow> Some (Inl err)
              | Inr e3 \<Rightarrow>
                  (case next_page_token resp of
                     None \<Rightarrow> Some (Inr e3)
                   | Some t \<Rightarrow>
                       if t = [] then Some (Inr e3)
                       else search_location_loop fuel env
                              (e3\<lparr>trace := trace e3 @ [Sleep PAGINATION_DELAY]\<rparr>)
                              cd keyword (Some t)))"

definition search_location ::
  "nat \<Rightarrow> env \<Rightarrow> DiscoveryEngine \<Rightarrow> city_data \<Rightarrow> string \<Rightarrow> (error + DiscoveryEngine) option" where
  "search_location fuel env e cd keyword = search_location_loop fuel env e cd keyword None"

subsection \<open>_sorted\<close>

definition sort_key_of :: "Business \<Rightarrow> int \<times> string" where
  \<comment> \<open>\<^verbatim>\<open>lambda b: (-b.data_completeness_score, b.business_name.lower())\<close>\<close>
  "sort_key_of b = (- data_completeness_score b, lower (business_name b))"

definition sorted_businesses :: "DiscoveryEngine \<Rightarrow> Business list" where
  \<comment> \<open>\<^verbatim>\<open>list.sort\<close> is stable, and so is the insertion sort \<open>sort_key\<close>; the two give the
      same list\<close>
  "sorted_businesses e = sort_key sort_key_of (dict_values (businesses e))"

subsection \<open>run\<close>

definition city_at :: "string \<Rightarrow> coord \<Rightarrow> coord \<Rightarrow> city_data" where
  \<comment> \<open>\<^verbatim>\<open>{"city": name, "lat": ..., "lng": ...}\<close>\<close>
  "city_at name la lo = \<lparr>cd_city = Some name, lat = la, lng = lo\<rparr>"

definition STATE_CITIES :: "(string \<times> city_data list) list" where
  "STATE_CITIES =
     [(''TX'',
        [city_at ''Houston'' ''29.7604'' ''-95.3698'',
         city_at ''San Antonio'' ''29.4241'' ''-98.4936'',
         city_at ''Dallas'' ''32.7767'' ''-96.7970'',
         city_at ''Austin'' ''30.2672'' ''-97.7431'',
         city_at ''Fort Worth'' ''32.7555'' ''-97.3308'',
         city_at ''El Paso'' ''31.7619'' ''-106.4850'',
         city_at ''Arlington'' ''32.7357'' ''-97.1081'',
         city_at ''Corpus Christi'' ''27.8006'' ''-97.3964'',
         city_at ''Plano'' ''33.0198'' ''-96.6989'',
         city_at ''Lubbock'' ''33.5779'' ''-101.8552'']),
      (''CA'',
        [city_at ''Los Angeles'' ''34.0522'' ''-118.2437'',
         city_at ''San Diego'' ''32.7157'' ''-117.1611'',
         city_at ''San Jose'' ''37.3382'' ''-121.8863'',
         city_at ''San Francisco'' ''37.7749'' ''-122.4194'',
         city_at ''Fresno'' ''36.7378'' ''-119.7871'',
         city_at ''Sacramento'' ''38.5816'' ''-121.4944'',
         city_at ''Oakland'' ''37.8044'' ''-122.2712'']),
      (''FL'',
        [city_at ''Miami'' ''25.7617'' ''-80.1918'',
         city_at ''Orlando'' ''28.5383'' ''-81.3792'',
         city_at ''Tampa'' ''27.9506'' ''-82.4572'',
         city_at ''Jacksonville'' ''30.3322'' ''-81.6557'',
         city_at ''Fort Lauderdale'' ''26.1224'' ''-80.1373'']),
      (''NY'',
        [city_at ''New York City'' ''40.7128'' ''-74.0060'',
         city_at ''Buffalo'' ''42.8864'' ''-78.8784'',
         city_at ''Rochester'' ''43.1566'' ''-77.6088'',
         city_at ''Albany'' ''42.6526'' ''-73.7562'']),
      (''GA'',
        [city_at ''Atlanta'' ''33.7490'' ''-84.3880'',
         city_at ''Savannah'' ''32.0809'' ''-81.0912'',
         city_at ''Augusta'' ''33.4735'' ''-82.0105'']),
      (''NC'',
        [city_at ''Charlotte'' ''35.2271'' ''-80.8431'',
         city_at ''Raleigh'' ''35.7796'' ''-78.6382'',
         city_at ''Greensboro'' ''36.0726'' ''-79.7920'']),
      (''AZ'',
        [city_at ''Phoenix'' ''33.4484'' ''-112.0740'',
         city_at ''Tucson'' ''32.2226'' ''-110.9747'',
         city_at ''Mesa'' ''33.4152'' ''-111.8315'']),
      (''IL'',
        [city_at ''Chicago'' ''41.8781'' ''-87.6298'',
         city_at ''Aurora'' ''41.7606'' ''-88.3201'',
         city_at ''Rockford'' ''42.2711'' ''-89.0940'']),
      (''PA'',
        [city_at ''Philadelphia'' ''39.9526'' ''-75.1652'',
         city_at ''Pittsburgh'' ''40.4406'' ''-79.9959'']),
      (''OH'',
        [city_at ''Columbus'' ''39.9612'' ''-82.9988'',
         city_at ''Cleveland'' ''41.4993'' ''-81.6944'',
         city_at ''Cincinnati'' ''39.1031'' ''-84.5120'']),
      (''CO'',
        [city_at ''Denver'' ''39.7392'' ''-104.9903'',
         city_at ''Colorado Springs'' ''38.8339'' ''-104.8214'']),
      (''WA'',
        [city_at ''Seattle'' ''47.6062'' ''-122.3321'',
         city_at ''Spokane'' ''47.6588'' ''-117.4260'']),
      (''TN'',
        [city_at ''Nashville'' ''36.1627'' ''-86.7816'',
         city_at ''Memphis'' ''35.1495'' ''-90.0490'']),
      (''NV'',
        [city_at ''Las Vegas'' ''36.1699'' ''-115.1398'',
         city_at ''Reno'' ''39.5296'' ''-119.8138''])]"

definition DEFAULT_CITIES :: "(string \<times> city_data list) list" where
  "DEFAULT_CITIES =
     [(''AL'', [city_at ''Birmingham'' ''33.5207'' ''-86.8025'']),
      (''AK'', [city_at ''Anchorage'' ''61.2181'' ''-149.9003'']),
      (''AR'', [city_at ''Little Rock'' ''34.7465'' ''-92.2896'']),
      (''CT'', [city_at ''Hartford'' ''41.7658'' ''-72.6734'']),
      (''DE'', [city_at ''Wilmington'' ''39.7391'' ''-75.5398'']),
      (''HI'', [city_at ''Honolulu'' ''21.3069'' ''-157.8583'']),
      (''ID'', [city_at ''Boise'' ''43.6150'' ''-116.2023'']),
      (''IN'', [city_at ''Indianapolis'' ''39.7684'' ''-86.1581'']),
      (''IA'', [city_at ''Des Moines'' ''41.5868'' ''-93.6250'']),
      (''KS'', [city_at ''Wichita'' ''37.6872'' ''-97.3301'']),
      (''KY'', [city_at ''Louisville'' ''38.2527'' ''-85.7585'']),
      (''LA'', [city_at ''New Orleans'' ''29.9511'' ''-90.0715'']),
      (''ME'', [city_at ''Portland'' ''43.6591'' ''-70.2568'']),
      (''MD'', [city_at ''Baltimore'' ''39.2904'' ''-76.6122'']),
      (''MA'', [city_at ''Boston'' ''42.3601'' ''-71.0589'']),
      (''MI'', [city_at ''Detroit'' ''42.3314'' ''-83.0458'']),
      (''MN'', [city_at ''Minneapolis'' ''44.9778'' ''-93.2650'']),
      (''MS'', [city_at ''Jackson'' ''32.2988'' ''-90.1848'']),
      (''MO'', [city_at ''Kansas City'' ''39.0997'' ''-94.5786'']),
      (''MT'', [city_at ''Billings'' ''45.7833'' ''-108.5007'']),
      (''NE'', [city_at ''Omaha'' ''41.2565'' ''-95.9345'']),
      (''NH'', [city_at ''Manchester'' ''42.9956'' ''-71.4548'']),
      (''NJ'', [city_at ''Newark'' ''40.7357'' ''-74.1724'']),
      (''NM'', [city_at ''Albuquerque'' ''35.0844'' ''-106.6504'']),
      (''ND'', [city_at ''Fargo'' ''46.8772'' ''-96.7898'']),
      (''OK'', [city_at ''Oklahoma City'' ''35.4676'' ''-97.5164'']),
      (''OR'', [city_at ''Portland'' ''45.5152'' ''-122.6784'']),
      (''RI'', [city_at ''Providence'' ''41.8240'' ''-71.4128'']),
      (''SC'', [city_at ''Charleston'' ''32.7765'' ''-79.9311'']),
      (''SD'', [city_at ''Sioux Falls'' ''43.5446'' ''-96.7311'']),
      (''UT'', [city_at ''Salt Lake City'' ''40.7608'' ''-111.8910'']),
      (''VT'', [city_at ''Burlington'' ''44.4759'' ''-73.2121'']),
      (''VA'', [city_at ''Virginia Beach'' ''36.8529'' ''-75.9780'']),
      (''WV'', [city_at ''Charleston'' ''38.3498'' ''-81.6326'']),
      (''WI'', [city_at ''Milwaukee'' ''43.0389'' ''-87.9065'']),
      (''WY'', [city_at ''Cheyenne'' ''41.1400'' ''-104.8202'']),
      (''DC'', [city_at ''Washington'' ''38.9072'' ''-77.0369''])]"

datatype GeographyMode = STATE | CITY

record config =
  cfg_keywords :: "string list"
  geographyMode :: GeographyMode
  cfg_state :: string
  cities :: "city_data list option"
  minResults :: "int option"

text \<open>
  Of the job, \<open>run\<close> writes the fields below and \<^verbatim>\<open>progress\<close>, a percentage computed
  in floating point, which the model leaves out. \<open>job_stats\<close> is \<open>None\<close> for the empty
  \<^verbatim>\<open>dict\<close> a job starts with, then the counters with the value of \<^verbatim>\<open>'valid'\<close>.
\<close>

record JobData =
  stop_reason :: string
  stop_reason_detail :: string
  current_keyword :: string
  current_city :: string
  job_stats :: "(Stats \<times> nat) option"

definition get_stop_reason_detail :: "string \<Rightarrow> string" where
  "get_stop_reason_detail reason =
     (case map_of
        [(''Target reached'', ''Found enough valid businesses to meet your target.''),
         (''All locations exhausted'', ''All cities searched. Try different keywords or state.''),
         (''API quota exceeded'', ''Google API rate limit reached. Wait and retry.''),
         ([], ''Search completed.'')] reason of
        None \<Rightarrow> ''Search ended: '' @ reason
      | Some detail \<Rightarrow> detail)"

definition resolve_cities :: "config \<Rightarrow> city_data list" where
  \<comment> \<open>the two assignments to \<^verbatim>\<open>cities\<close> at the head of \<^verbatim>\<open>run\<close>\<close>
  "resolve_cities cfg =
     (let st = upper (cfg_state cfg);
          cs = (if geographyMode cfg = CITY then cities cfg else None)
      in case cs of
           Some (c # cs') \<Rightarrow> c # cs'
         | _ \<Rightarrow> (case map_of STATE_CITIES st of
                   Some l \<Rightarrow> l
                 | None \<Rightarrow> (case map_of DEFAULT_CITIES st of Some l \<Rightarrow> l | None \<Rightarrow> [])))"

datatype ('r, 's) flow = Return 'r | Next 's

type_synonym run_result = "Business list \<times> DiscoveryEngine \<times> JobData"

fun run_cities ::
  "nat \<Rightarrow> env \<Rightarrow> int \<Rightarrow> string \<Rightarrow> city_data list \<Rightarrow> DiscoveryEngine \<times> JobData
     \<Rightarrow> (error + (run_result, DiscoveryEngine \<times> JobData) flow) option" where
  \<comment> \<open>the inner \<^verbatim>\<open>for city_data in cities\<close>: \<open>Return\<close> is the \<^verbatim>\<open>return\<close> in its body\<close>
  "run_cities fuel env min_results keyword [] (e, job) = Some (Inr (Next (e, job)))"
| "run_cities fuel env min_results keyword (cd # cds) (e, job) =
     (let job1 = job\<lparr>current_city := (case cd_city cd of None \<Rightarrow> ''Unknown'' | Some c \<Rightarrow> c)\<rparr>
      in case search_location fuel env e cd keyword of
           None \<Rightarrow> None
         | Some (Inl err) \<Rightarrow> Some (Inl err)
         | Some (Inr e1) \<Rightarrow>
             (let job2 = job1\<lparr>job_stats := Some (stats e1, length (businesses e1))\<rparr>
              in if min_results \<le> int (length (businesses e1))
                 then Some (Inr (Return
                        (sorted_businesses e1, e1,
                         job2\<lparr>stop_reason := ''Target reached'',
                              stop_reason_detail := get_stop_reason_detail ''Target reached''\<rparr>)))
                 else run_cities fuel env min_results keyword cds (e1, job2)))"

fun run_keywords ::
  "nat \<Rightarrow> env \<Rightarrow> int \<Rightarrow> city_data list \<Rightarrow> string list \<Rightarrow> DiscoveryEngine \<times> JobData
     \<Rightarrow> (error + (run_result, DiscoveryEngine \<times> JobData) flow) option" where
  \<comment> \<open>the outer \<^verbatim>\<open>for keyword in keywords\<close>\<close>
  "run_keywords fuel env min_results cs [] (e, job) = Some (Inr (Next (e, job)))"
| "run_keywords fuel env min_results cs (keyword # kws) (e, job) =
     (case run_cities fuel env min_results keyword cs (e, job\<lparr>current_keyword := keyword\<rparr>) of
        None \<Rightarrow> None
      | Some (Inl err) \<Rightarrow> Some (Inl err)
      | Some (Inr (Return r)) \<Rightarrow> Some (Inr (Return r))
      | Some (Inr (Next ej)) \<Rightarrow> run_keywords fuel env min_results cs kws ej)"

definition run ::
  "nat \<Rightarrow> env \<Rightarrow> config \<Rightarrow> DiscoveryEngine \<Rightarrow> JobData \<Rightarrow> (error + run_result) option" where
  \<comment> \<open>the list returned, with the engine and the job as \<open>run\<close> leaves them\<close>
  "run fuel env cfg e job =
     (let st = upper (cfg_state cfg);
          min_results = (case minResults cfg of None \<Rightarrow> DEFAULT_MIN_BUSINESSES | Some m \<Rightarrow> m);
          cs = resolve_cities cfg
      in if cs = []
         then Some (Inr ([], e,
                job\<lparr>stop_reason := ''No cities configured'',
                    stop_reason_detail := ''No cities for state '' @ st @ ''.''\<rparr>))
         else case run_keywords fuel env min_results cs (cfg_keywords cfg) (e, job) of
                None \<Rightarrow> None
              | Some (Inl err) \<Rightarrow> Some (Inl err)
              | Some (Inr (Return r)) \<Rightarrow> Some (Inr r)
              | Some (Inr (Next (e1, job1))) \<Rightarrow>
                  Some (Inr (sorted_businesses e1, e1,
                    job1\<lparr>stop_reason := ''All locations exhausted'',
                         stop_reason_detail :=
                           get_stop_reason_detail ''All locations exhausted''\<rparr>)))"

section \<open>The validators as Python calls them\<close>

text \<open>
  A Python function takes any value. The definitions above are the validators on the
  strings the engine hands them; the ones below are the same functions on a Python
  value, with the test \<^verbatim>\<open>if not x\<close> that guards each of them and the exception that a
  string operation raises on a value that is not a string. \<open>PyInt\<close> stands for the values
  that are neither \<^verbatim>\<open>None\<close> nor a string.
\<close>

datatype pyval = PyNone | PyStr string | PyInt int

definition truthy :: "pyval \<Rightarrow> bool" where
  "truthy v = (case v of PyNone \<Rightarrow> False | PyStr s \<Rightarrow> s \<noteq> [] | PyInt n \<Rightarrow> n \<noteq> 0)"

definition py_is_fake_phone :: "pyval \<Rightarrow> error + bool" where
  "py_is_fake_phone phone =
     (if \<not> truthy phone then Inr False
      else case phone of PyStr s \<Rightarrow> Inr (is_fake_phone s) | _ \<Rightarrow> Inl TypeError)"

definition py_is_fake_email :: "pyval \<Rightarrow> error + bool" where
  "py_is_fake_email email' =
     (if \<not> truthy email' then Inr False
      else case email' of PyStr s \<Rightarrow> Inr (is_fake_email s) | _ \<Rightarrow> Inl AttributeError)"

definition py_extract_city_state :: "pyval \<Rightarrow> error + (string \<times> string)" where
  "py_extract_city_state address' =
     (if \<not> truthy address' then Inr ([], [])
      else case address' of PyStr s \<Rightarrow> extract_city_state s | _ \<Rightarrow> Inl TypeError)"

definition py_extract_emails :: "(string \<Rightarrow> nat) \<Rightarrow> pyval \<Rightarrow> error + string list" where
  "py_extract_emails h text =
     (if \<not> truthy text then Inr []
      else case text of PyStr s \<Rightarrow> Inr (extract_emails h s) | _ \<Rightarrow> Inl AttributeError)"

fun py_count_present :: "pyval list \<Rightarrow> error + int" where
  "py_count_present [] = Inr 0"
| "py_count_present (f # fs) =
     (case (if \<not> truthy f then Inr False
            else case f of PyStr s \<Rightarrow> Inr (strip s \<noteq> []) | _ \<Rightarrow> Inl AttributeError) of
        Inl e \<Rightarrow> Inl e
      | Inr present \<Rightarrow>
          (case py_count_present fs of
             Inl e \<Rightarrow> Inl e
           | Inr n \<Rightarrow> Inr ((if present then 1 else 0) + n)))"

section \<open>Notions the claims speak of\<close>

definition city_state_of :: "string \<Rightarrow> string \<times> string" where
  \<comment> \<open>the pair that \<open>extract_city_state\<close> returns (it never raises, see below)\<close>
  "city_state_of a = (case extract_city_state a of Inr r \<Rightarrow> r | Inl _ \<Rightarrow> ([], []))"

definition domain_key :: "Business \<Rightarrow> string option" where
  \<comment> \<open>the key under which \<^verbatim>\<open>_search_location\<close> registers a Business in
      \<^verbatim>\<open>seen_domains\<close>: its domain, if \<^verbatim>\<open>_get_domain\<close> finds one that is not empty\<close>
  "domain_key b =
     (case get_domain (website b) of
        None \<Rightarrow> None
      | Some dm \<Rightarrow> if dm \<noteq> [] then Some dm else None)"

definition same_store :: "DiscoveryEngine \<Rightarrow> DiscoveryEngine \<Rightarrow> bool" where
  \<comment> \<open>the accumulated result set, the domain index and the client are the same\<close>
  "same_store e e' \<longleftrightarrow>
     businesses e' = businesses e \<and> seen_domains e' = seen_domains e \<and> client e' = client e"

definition same_identity :: "Business \<Rightarrow> Business \<Rightarrow> bool" where
  "same_identity b b' \<longleftrightarrow> google_place_id b' = google_place_id b \<and> website b' = website b"

definition details_site :: "env \<Rightarrow> DiscoveryEngine \<Rightarrow> place \<Rightarrow> string" where
  \<comment> \<open>the website that the details lookup of \<^verbatim>\<open>_process_place\<close> gets for a candidate\<close>
  "details_site env e pl =
     get_or (det_website (get_or (fst (get_details env (trace e) (place_id pl))) no_details)) []"

definition after_candidate :: "env \<Rightarrow> DiscoveryEngine \<Rightarrow> place \<Rightarrow> string \<Rightarrow> DiscoveryEngine" where
  \<comment> \<open>the engine after one round of the \<^verbatim>\<open>for place in ...\<close> loop of
      \<^verbatim>\<open>_search_location\<close>: one candidate counted, processed and, if it is accepted,
      registered\<close>
  "after_candidate env e pl keyword =
     (case process_results env e [pl] keyword of Inr e' \<Rightarrow> e' | Inl _ \<Rightarrow> e)"




definition threshold_inv :: "DiscoveryEngine \<Rightarrow> bool" where
  "threshold_inv e \<longleftrightarrow>
     (\<forall>b \<in> set (dict_values (businesses e)).
        2 \<le> data_completeness_score b \<and> data_completeness_score b = calc_completeness b)"

definition emails_inv :: "DiscoveryEngine \<Rightarrow> bool" where
  "emails_inv e \<longleftrightarrow>
     fake_emails (stats e) = 0
     \<and> (\<forall>b \<in> set (dict_values (businesses e)). \<not> is_fake_email (email b))"



text \<open>What a run hands back, for the statements about given runs.\<close>

definition returned :: "(error + run_result) option \<Rightarrow> bool" where
  "returned r = (case r of Some (Inr _) \<Rightarrow> True | _ \<Rightarrow> False)"

definition result_of :: "(error + run_result) option \<Rightarrow> Business list" where
  "result_of r = (case r of Some (Inr (res, e, job)) \<Rightarrow> res | _ \<Rightarrow> [])"

definition engine_of :: "(error + run_result) option \<Rightarrow> DiscoveryEngine" where
  "engine_of r = (case r of Some (Inr (res, e, job)) \<Rightarrow> e | _ \<Rightarrow> init_engine)"

definition job_of :: "(error + run_result) option \<Rightarrow> JobData option" where
  "job_of r = (case r of Some (Inr (res, e, job)) \<Rightarrow> Some job | _ \<Rightarrow> None)"


definition is_group :: "item \<Rightarrow> bool" where
  "is_group i = (case i of G _ \<Rightarrow> True | A _ \<Rightarrow> False)"

section \<open>Example data\<close>

definition ex_business :: Business where
  "ex_business = \<lparr>business_name = ''Acme Plumbing'', phone_number = [], email = [],
     website = ''  '', address = ''1 Main St, Austin, TX 78701'', city = ''Austin'',
     state = ''TX'', search_keyword = ''plumber'', google_place_id = ''p1'',
     email_source = [], data_completeness_score = 1\<rparr>"

text \<open>
  A run: one keyword, one location, one page of three candidates. The second has the
  web site of the first under another name; the third has a placeholder phone number
  and nothing else.
\<close>

definition ex_places :: "place list" where
  "ex_places =
     [\<lparr>place_id = ''p1'', place_name = ''Acme Plumbing'', vicinity = ''1 Main St, Austin''\<rparr>,
      \<lparr>place_id = ''p2'', place_name = ''ACME Plumbing Co'', vicinity = ''2 Side St, Austin''\<rparr>,
      \<lparr>place_id = ''p3'', place_name = ''Nobody'', vicinity = []\<rparr>]"

definition ex_details :: "string \<Rightarrow> details_reply" where
  "ex_details pid =
     (if pid = ''p1'' then DetailsJson (Some
        \<lparr>det_name = Some ''Acme Plumbing'',
         det_formatted_phone_number = Some ''(512) 310-4000'',
         det_formatted_address = Some ''1 Main St, Austin, TX 78701, USA'',
         det_website = Some ''http://www.acme.com/''\<rparr>)
      else if pid = ''p2'' then DetailsJson (Some
        \<lparr>det_name = None, det_formatted_phone_number = Some ''(512) 310-4001'',
         det_formatted_address = Some ''2 Side St, Austin, TX 78702, USA'',
         det_website = Some ''https://ACME.com/contact''\<rparr>)
      else if pid = ''p3'' then DetailsJson (Some
        \<lparr>det_name = None, det_formatted_phone_number = Some ''555-555-5555'',
         det_formatted_address = None, det_website = None\<rparr>)
      else DetailsFailed)"

definition ex_env :: env where
  "ex_env =
     \<lparr>nearby_reply_at = (\<lambda>clock la lo kw tok.
        NearbyJson \<lparr>nd_status = Some ''OK'', nd_results = ex_places,
                    next_page_token = None\<rparr>),
      details_reply_at = (\<lambda>clock pid. ex_details pid),
      http_reply_at = (\<lambda>clock url.
        if url = ''http://www.acme.com/''
        then HttpResponse 200 ''Mail us: Info@Acme.com or test@acme.com''
        else HttpFailed),
      str_hash = (\<lambda>_. length)\<rparr>"

definition ex_config :: config where
  "ex_config =
     \<lparr>cfg_keywords = [''plumber''], geographyMode = CITY, cfg_state = ''tx'',
      cities = Some [city_at ''Austin'' ''30.2672'' ''-97.7431''], minResults = Some 5\<rparr>"

definition ex_job :: JobData where
  "ex_job = \<lparr>stop_reason = [], stop_reason_detail = [], current_keyword = [],
     current_city = [], job_stats = None\<rparr>"

text \<open>
  Two runs that differ in the order of one page only: two candidates with the same
  score whose names differ in case only.
\<close>

definition ex_twins :: "place list" where
  "ex_twins =
     [\<lparr>place_id = ''t1'', place_name = ''Acme Plumbing'', vicinity = ''1 Main St, Austin''\<rparr>,
      \<lparr>place_id = ''t2'', place_name = ''ACME PLUMBING'', vicinity = ''9 High St, Austin''\<rparr>]"

definition ex_twins_env :: "place list \<Rightarrow> env" where
  "ex_twins_env page =
     \<lparr>nearby_reply_at = (\<lambda>clock la lo kw tok.
        NearbyJson \<lparr>nd_status = Some ''OK'', nd_results = page, next_page_token = None\<rparr>),
      details_reply_at = (\<lambda>clock pid. DetailsJson (Some
        \<lparr>det_name = None, det_formatted_phone_number = Some ''(512) 310-4000'',
         det_formatted_address = None, det_website = None\<rparr>)),
      http_reply_at = (\<lambda>clock url. HttpFailed),
      str_hash = (\<lambda>_. length)\<rparr>"

text \<open>
  A run in which the first answer of the Places API carries the rate-limit status and
  every later answer would be a page of candidates.
\<close>

definition ex_quota_env :: env where
  "ex_quota_env =
     ex_env\<lparr>nearby_reply_at := (\<lambda>clock la lo kw tok.
       if clock = 0
       then NearbyJson \<lparr>nd_status = Some ''OVER_QUERY_LIMIT'', nd_results = [],
                        next_page_token = None\<rparr>
       else NearbyJson \<lparr>nd_status = Some ''OK'', nd_results = ex_places,
                        next_page_token = None\<rparr>)\<rparr>"

text \<open>A run whose page comes in an order that the sort has to change.\<close>

definition ex_sort_env :: env where
  "ex_sort_env =
     \<lparr>nearby_reply_at = (\<lambda>clock la lo kw tok.
        NearbyJson \<lparr>nd_status = Some ''OK'',
          nd_results =
            [\<lparr>place_id = ''z1'', place_name = ''Zeta Pipes'', vicinity = ''3 Low St''\<rparr>,
             \<lparr>place_id = ''a1'', place_name = ''alpha drains'', vicinity = ''4 Low St''\<rparr>,
             \<lparr>place_id = ''b1'', place_name = ''Beta Taps'', vicinity = ''5 Low St''\<rparr>],
          next_page_token = None\<rparr>),
      details_reply_at = (\<lambda>clock pid. DetailsJson (Some
        \<lparr>det_name = None, det_formatted_phone_number = Some ''(512) 310-4000'',
         det_formatted_address = None,
         det_website = (if pid = ''b1'' then Some ''beta-taps.io'' else None)\<rparr>)),
      http_reply_at = (\<lambda>clock url. HttpFailed),
      str_hash = (\<lambda>_. length)\<rparr>"

section \<open>The validators: what they compute\<close>

subsection \<open>Groups of a match\<close>

text \<open>A match has one text per group of its pattern, so \<open>group\<close> finds the groups that
  the pattern has.\<close>

lemma match_items_groups:
  "m \<in> set (match_items p s) \<Longrightarrow> length (fst m) = length (filter is_group p)"
proof (induction p s arbitrary: m rule: match_items.induct)
  case (1 s)
  then show ?case by simp
next
  case (2 a p s)
  then show ?case by (auto simp: is_group_def)
next
  case (3 as p s)
  then show ?case by (auto simp: is_group_def)
qed

lemma re_match_groups:
  "re_match p s = Some m \<Longrightarrow> length (fst m) = length (filter is_group p)"
proof -
  assume "re_match p s = Some m"
  then have "m \<in> set (match_items p s)"
    by (cases "match_items p s") (simp_all add: re_match_def)
  then show ?thesis by (rule match_items_groups)
qed

lemma re_search_groups:
  "re_search p s = Some m \<Longrightarrow> length (fst m) = length (filter is_group p)"
  by (induction s) (auto split: option.splits dest: re_match_groups)

lemma group_ok:
  "1 \<le> i \<Longrightarrow> i \<le> length (fst m) \<Longrightarrow> group m i = Inr (fst m ! (i - 1))"
  by (cases m) (simp add: group_def)

lemma first_city_state_ok:
  "\<forall>p \<in> set ps. length (filter is_group p) = 2 \<Longrightarrow> \<exists>r. first_city_state ps a = Inr r"
proof (induction ps)
  case Nil
  then show ?case by simp
next
  case (Cons p ps)
  show ?case
  proof (cases "re_search p a")
    case None
    with Cons show ?thesis by simp
  next
    case (Some m)
    then have "length (fst m) = 2" using Cons.prems re_search_groups by fastforce
    then show ?thesis using Some by (simp add: group_ok)
  qed
qed

lemma extract_city_state_ok: "\<exists>r. extract_city_state a = Inr r"
  unfolding extract_city_state_def
  using first_city_state_ok [of "[CITY_STATE_ZIP, CITY_STATE_END]" a]
  by (simp add: CITY_STATE_ZIP_def CITY_STATE_END_def is_group_def)

subsection \<open>Blank fields\<close>

lemma strip_Nil: "strip [] = []" by (simp add: strip_def)

lemma present_iff: "(f \<noteq> [] \<and> strip f \<noteq> []) = (strip f \<noteq> [])"
  using strip_Nil by blast

lemma calc_completeness_alt:
  "calc_completeness b =
     (if strip (phone_number b) \<noteq> [] then 1 else 0)
     + (if strip (email b) \<noteq> [] then 1 else 0)
     + (if strip (website b) \<noteq> [] then 1 else 0)
     + (if strip (address b) \<noteq> [] then 1 else 0)"
  by (simp add: calc_completeness_def present_iff)

lemma py_count_present_strs:
  "py_count_present (map PyStr fs) = Inr (int (length (filter (\<lambda>f. strip f \<noteq> []) fs)))"
  by (induction fs) (auto simp: truthy_def strip_Nil)
lemma startswith_nonempty: "startswith s p \<Longrightarrow> p \<noteq> [] \<Longrightarrow> s \<noteq> []"
  by (auto simp: startswith_def)

lemma endswith_nonempty: "endswith s x \<Longrightarrow> x \<noteq> [] \<Longrightarrow> s \<noteq> []"
  by (auto simp: endswith_def)

subsection \<open>C6: is_fake_email\<close>

text \<open>
  C6 as stated fails: an address that ends in the text of a blocklisted domain is fake
  only when an \<^verbatim>\<open>@\<close> stands right before that text. \<^verbatim>\<open>info@mail.example.com\<close> ends in
  \<^verbatim>\<open>example.com\<close> and \<^verbatim>\<open>bob@contest.com\<close> in \<^verbatim>\<open>test.com\<close>, and \<open>is_fake_email\<close> is
  false for both.
\<close>

theorem is_fake_email_suffix_counterexample:
  "''example.com'' \<in> set FAKE_EMAIL_DOMAINS
   \<and> endswith ''info@mail.example.com'' ''example.com''
   \<and> \<not> is_fake_email ''info@mail.example.com''
   \<and> ''test.com'' \<in> set FAKE_EMAIL_DOMAINS
   \<and> endswith ''bob@contest.com'' ''test.com''
   \<and> \<not> is_fake_email ''bob@contest.com''"
  by (simp add: is_fake_email_def lower_def lower_char_def py_ord_def endswith_def
        startswith_def FAKE_EMAIL_DOMAINS_def FAKE_EMAIL_PREFIXES_def)

text \<open>
  C6, amended: every address whose lower-case form ends in \<^verbatim>\<open>@\<close> followed by a
  blocklisted domain, or starts with a blocklisted prefix, is fake;
  \<^verbatim>\<open>user@realcompany.io\<close> is not, and the empty string is not.
\<close>

theorem is_fake_email_blocklisted:
  "(((\<exists>d \<in> set FAKE_EMAIL_DOMAINS. endswith (lower e) (''@'' @ d))
      \<or> (\<exists>p \<in> set FAKE_EMAIL_PREFIXES. startswith (lower e) p)) \<longrightarrow> is_fake_email e)
   \<and> \<not> is_fake_email ''user@realcompany.io''
   \<and> \<not> is_fake_email []"
proof -
  have a: "is_fake_email e" if "\<exists>d \<in> set FAKE_EMAIL_DOMAINS. endswith (lower e) (''@'' @ d)"
  proof -
    from that obtain d where d: "d \<in> set FAKE_EMAIL_DOMAINS" "endswith (lower e) (''@'' @ d)" by blast
    then have "lower e \<noteq> []" using endswith_nonempty by fastforce
    then have "e \<noteq> []" by (auto simp: lower_def)
    with d show ?thesis by (auto simp: is_fake_email_def list_ex_iff Let_def)
  qed
  have b: "is_fake_email e" if "\<exists>p \<in> set FAKE_EMAIL_PREFIXES. startswith (lower e) p"
  proof -
    from that obtain p where p: "p \<in> set FAKE_EMAIL_PREFIXES" "startswith (lower e) p" by blast
    then have "p \<noteq> []" by (auto simp: FAKE_EMAIL_PREFIXES_def)
    with p have "lower e \<noteq> []" using startswith_nonempty by blast
    then have "e \<noteq> []" by (auto simp: lower_def)
    with p show ?thesis by (auto simp: is_fake_email_def list_ex_iff Let_def)
  qed
  have c: "\<not> is_fake_email ''user@realcompany.io''"
    by (simp add: is_fake_email_def lower_def lower_char_def py_ord_def endswith_def
        startswith_def FAKE_EMAIL_DOMAINS_def FAKE_EMAIL_PREFIXES_def)
  have d: "\<not> is_fake_email []" by (simp add: is_fake_email_def)
  from a b c d show ?thesis by blast
qed

theorem is_fake_email_blocklisted_witness:
  "endswith (lower ''Info@EXAMPLE.com'') (''@'' @ ''example.com'')
   \<and> is_fake_email ''Info@EXAMPLE.com''
   \<and> startswith (lower ''NoReply@acme.io'') ''noreply@''
   \<and> is_fake_email ''NoReply@acme.io''"
proof -
  have d: "''example.com'' \<in> set FAKE_EMAIL_DOMAINS" by (simp add: FAKE_EMAIL_DOMAINS_def)
  have p: "''noreply@'' \<in> set FAKE_EMAIL_PREFIXES" by (simp add: FAKE_EMAIL_PREFIXES_def)
  have h1: "endswith (lower ''Info@EXAMPLE.com'') (''@'' @ ''example.com'')" by code_simp
  have h2: "startswith (lower ''NoReply@acme.io'') ''noreply@''" by code_simp
  from d h1 have "is_fake_email ''Info@EXAMPLE.com''"
    using is_fake_email_blocklisted [of "''Info@EXAMPLE.com''"] by blast
  moreover from p h2 have "is_fake_email ''NoReply@acme.io''"
    using is_fake_email_blocklisted [of "''NoReply@acme.io''"] by blast
  ultimately show ?thesis using h1 h2 by blast
qed

subsection \<open>C7: the dedup key of a website\<close>

text \<open>
  C7: the claim has the key keep every \<^verbatim>\<open>www.\<close> but a leading one. \<open>get_domain\<close>
  removes every occurrence: \<^verbatim>\<open>mywww.example.com\<close> gets the key of
  \<^verbatim>\<open>myexample.com\<close>, and \<^verbatim>\<open>www.mywww.com\<close> the key \<^verbatim>\<open>mycom\<close>. A leading
  \<^verbatim>\<open>www.\<close> alone is removed as the claim says.
\<close>

theorem get_domain_removes_every_www:
  "get_domain ''https://mywww.example.com'' = Some ''myexample.com''
   \<and> get_domain ''https://myexample.com'' = Some ''myexample.com''
   \<and> get_domain ''http://www.mywww.com'' = Some ''mycom''
   \<and> get_domain ''http://www.acme.com'' = Some ''acme.com''"
  by (simp add: get_domain_def urlparse_netloc_def startswith_def lower_def lower_char_def
      py_ord_def str_replace.simps is_alpha_azAZ_def is_lower_az_def is_upper_AZ_def
      is_scheme_char_def is_alnum_def is_digit_def)

subsection \<open>C8: calc_completeness\<close>

text \<open>
  C8: the score is the number of the four fields phone, email, website and address that
  are not empty once trimmed; it lies between 0 and 4; and giving a value to a field that
  was empty (or blank) never lowers it.
\<close>

theorem calc_completeness_counts_present_fields:
  "calc_completeness b =
     int (length (filter (\<lambda>f. strip f \<noteq> [])
            [phone_number b, email b, website b, address b]))
   \<and> 0 \<le> calc_completeness b \<and> calc_completeness b \<le> 4
   \<and> (strip (phone_number b) = []
        \<longrightarrow> calc_completeness b \<le> calc_completeness (b\<lparr>phone_number := v\<rparr>))
   \<and> (strip (email b) = []
        \<longrightarrow> calc_completeness b \<le> calc_completeness (b\<lparr>email := v\<rparr>))
   \<and> (strip (website b) = []
        \<longrightarrow> calc_completeness b \<le> calc_completeness (b\<lparr>website := v\<rparr>))
   \<and> (strip (address b) = []
        \<longrightarrow> calc_completeness b \<le> calc_completeness (b\<lparr>address := v\<rparr>))"
  by (simp add: calc_completeness_alt)

theorem calc_completeness_witness:
  "strip (phone_number ex_business) = [] \<and> strip (email ex_business) = []
   \<and> strip (website ex_business) = []
   \<and> calc_completeness ex_business = 1
   \<and> calc_completeness (ex_business\<lparr>phone_number := ''512-310-4000''\<rparr>) = 2
   \<and> calc_completeness ex_business
        \<le> calc_completeness (ex_business\<lparr>phone_number := ''512-310-4000''\<rparr>)"
  using calc_completeness_counts_present_fields [of ex_business "''512-310-4000''"]
  by (simp add: ex_business_def calc_completeness_def strip_def is_space_def py_ord_def)

subsection \<open>C9: the validators do not raise\<close>

text \<open>
  C9: on a string, none of \<^verbatim>\<open>is_fake_phone\<close>, \<^verbatim>\<open>is_fake_email\<close>,
  \<^verbatim>\<open>extract_emails\<close>, \<^verbatim>\<open>extract_city_state\<close> and \<^verbatim>\<open>calc_completeness\<close> raises;
  on the empty string and on \<^verbatim>\<open>None\<close> the first two return false, the third the empty
  list and the fourth a pair of empty strings.
\<close>

theorem validators_never_raise:
  "(\<exists>r. py_is_fake_phone (PyStr s) = Inr r)
   \<and> (\<exists>r. py_is_fake_email (PyStr s) = Inr r)
   \<and> (\<exists>r. py_extract_emails h (PyStr s) = Inr r)
   \<and> (\<exists>r. py_extract_city_state (PyStr s) = Inr r)
   \<and> (\<exists>r. py_count_present [PyStr (phone_number b), PyStr (email b), PyStr (website b), PyStr (address b)] = Inr r)
   \<and> py_is_fake_phone (PyStr []) = Inr False \<and> py_is_fake_phone PyNone = Inr False
   \<and> py_is_fake_email (PyStr []) = Inr False \<and> py_is_fake_email PyNone = Inr False
   \<and> py_extract_emails h (PyStr []) = Inr [] \<and> py_extract_emails h PyNone = Inr []
   \<and> py_extract_city_state (PyStr []) = Inr ([], []) \<and> py_extract_city_state PyNone = Inr ([], [])"
proof -
  have "\<exists>r. py_extract_city_state (PyStr s) = Inr r"
    using extract_city_state_ok [of s] by (simp add: py_extract_city_state_def truthy_def)
  moreover have "\<exists>r. py_count_present [PyStr (phone_number b), PyStr (email b), PyStr (website b), PyStr (address b)] = Inr r"
    using py_count_present_strs [of "[phone_number b, email b, website b, address b]"] by simp
  moreover have "\<exists>r. py_is_fake_phone (PyStr s) = Inr r"
    by (auto simp: py_is_fake_phone_def)
  moreover have "\<exists>r. py_is_fake_email (PyStr s) = Inr r"
    by (auto simp: py_is_fake_email_def)
  moreover have "\<exists>r. py_extract_emails h (PyStr s) = Inr r"
    by (auto simp: py_extract_emails_def)
  ultimately show ?thesis
    by (auto simp: py_is_fake_phone_def py_is_fake_email_def py_extract_emails_def
        py_extract_city_state_def truthy_def)
qed

section \<open>The engine: one candidate\<close>

lemma extract_city_state_eq: "extract_city_state a = Inr (city_state_of a)"
  using extract_city_state_ok [of a] by (auto simp: city_state_of_def)

lemma is_fake_email_Nil: "is_fake_email [] = False"
  by (simp add: is_fake_email_def)

lemma extract_emails_not_fake: "em \<in> set (extract_emails h body) \<Longrightarrow> \<not> is_fake_email em"
  by (auto simp: extract_emails_def split: if_splits)

lemma scrape_pages_not_fake:
  "scrape_pages env tr pages = (Some em, tr') \<Longrightarrow> \<not> is_fake_email em"
proof (induction pages arbitrary: tr)
  case Nil
  then show ?case by simp
next
  case (Cons page pages)
  show ?case
  proof (cases "http_reply_at env (length tr) page")
    case HttpFailed
    with Cons show ?thesis by simp
  next
    case (HttpResponse code body)
    show ?thesis
    proof (cases "code = 200")
      case False
      with Cons HttpResponse show ?thesis by simp
    next
      case True
      show ?thesis
      proof (cases "extract_emails (str_hash env (length tr)) body")
        case Nil
        with Cons HttpResponse True show ?thesis by simp
      next
        case found: (Cons e es)
        then have "\<not> is_fake_email e"
          using extract_emails_not_fake [of e "str_hash env (length tr)" body] by simp
        with found Cons.prems HttpResponse True show ?thesis by simp
      qed
    qed
  qed
qed

lemma scrape_email_not_fake:
  "scrape_email env tr site = (Some em, tr') \<Longrightarrow> \<not> is_fake_email em"
  unfolding scrape_email_def Let_def
  by (auto simp del: scrape_pages.simps split: if_splits dest: scrape_pages_not_fake)

subsection \<open>The four statements of process_place\<close>

lemma same_store_refl: "same_store e e"
  by (simp add: same_store_def)

lemma same_store_trans: "same_store e e' \<Longrightarrow> same_store e' e'' \<Longrightarrow> same_store e e''"
  by (simp add: same_store_def)

lemma same_identity_trans: "same_identity b b' \<Longrightarrow> same_identity b' b'' \<Longrightarrow> same_identity b b''"
  by (simp add: same_identity_def)

lemma check_phone_facts:
  assumes "check_phone b e = (b', e')"
  shows "same_identity b b'" and "email b' = email b" and "same_store e e'"
    and "duplicates (stats e') = duplicates (stats e)"
    and "validation_failed (stats e') = validation_failed (stats e)"
    and "fake_emails (stats e') = fake_emails (stats e)"
  using assms by (auto simp: check_phone_def same_identity_def same_store_def split: if_splits)

lemma scrape_website_facts:
  assumes "scrape_website env site b e = (b', e')"
  shows "same_identity b b'" and "same_store e e'"
    and "email b' = email b \<or> \<not> is_fake_email (email b')"
    and "duplicates (stats e') = duplicates (stats e)"
    and "validation_failed (stats e') = validation_failed (stats e)"
    and "fake_emails (stats e') = fake_emails (stats e)"
  using assms
  by (auto simp: scrape_website_def same_identity_def same_store_def Let_def
      split: if_splits prod.splits option.splits dest: scrape_email_not_fake)

lemma check_email_facts:
  assumes "check_email b e = (b', e')"
  shows "same_identity b b'" and "same_store e e'"
    and "\<not> is_fake_email (email b')"
    and "duplicates (stats e') = duplicates (stats e)"
    and "validation_failed (stats e') = validation_failed (stats e)"
    and "\<not> is_fake_email (email b) \<Longrightarrow> e' = e \<and> b' = b"
  using assms
  by (auto simp: check_email_def same_identity_def same_store_def is_fake_email_Nil
      split: if_splits)

lemma calc_completeness_score_update:
  "calc_completeness (b\<lparr>data_completeness_score := x\<rparr>) = calc_completeness b"
  by (simp add: calc_completeness_def)

lemma check_completeness_Some:
  assumes "check_completeness b e = (Some b', e')"
  shows "b' = b\<lparr>data_completeness_score := calc_completeness b\<rparr>" and "e' = e"
    and "2 \<le> calc_completeness b"
  using assms by (auto simp: check_completeness_def Let_def split: if_splits)

lemma check_completeness_None:
  assumes "check_completeness b e = (None, e')"
  shows "calc_completeness b < 2"
    and "e' = e\<lparr>stats := (stats e)\<lparr>validation_failed := validation_failed (stats e) + 1\<rparr>\<rparr>"
  using assms by (auto simp: check_completeness_def Let_def split: if_splits)

lemma check_completeness_below:
  "calc_completeness b < 2 \<Longrightarrow>
     check_completeness b e =
       (None, e\<lparr>stats := (stats e)\<lparr>validation_failed := validation_failed (stats e) + 1\<rparr>\<rparr>)"
  by (simp add: check_completeness_def Let_def)

lemma process_place_cases:
  obtains
    (dup_id) "place_id pl = [] \<or> place_id pl \<in> dict_keys (businesses e)"
      and "process_place env e pl kw = Inr (None, count_duplicate e)"
  | (dup_domain) dm where "place_id pl \<noteq> []" and "place_id pl \<notin> dict_keys (businesses e)"
      and "get_domain (details_site env e pl) = Some dm" and "dm \<noteq> []"
      and "dm \<in> dom (seen_domains e)"
      and "process_place env e pl kw =
             Inr (None, count_duplicate (e\<lparr>trace := snd (get_details env (trace e) (place_id pl))\<rparr>))"
  | (candidate) b1 e1 b2 e2 b3 e3 b4 e4
    where "place_id pl \<noteq> []" and "place_id pl \<notin> dict_keys (businesses e)"
      and "\<forall>dm. get_domain (details_site env e pl) = Some dm \<longrightarrow> dm \<noteq> [] \<longrightarrow> dm \<notin> dom (seen_domains e)"
      and "google_place_id b1 = place_id pl" and "website b1 = details_site env e pl"
      and "email b1 = []" and "same_store e e1"
      and "stats e1 = stats e"
      and "check_phone b1 e1 = (b2, e2)"
      and "scrape_website env (details_site env e pl) b2 e2 = (b3, e3)"
      and "check_email b3 e3 = (b4, e4)"
      and "process_place env e pl kw = Inr (check_completeness b4 e4)"
proof (cases "place_id pl = [] \<or> place_id pl \<in> dict_keys (businesses e)")
  case True
  then have "process_place env e pl kw = Inr (None, count_duplicate e)"
    by (simp add: process_place_def)
  with True show ?thesis by (rule dup_id)
next
  case False
  obtain result tr1 where gd: "get_details env (trace e) (place_id pl) = (result, tr1)"
    by (cases "get_details env (trace e) (place_id pl)")
  define site where "site = details_site env e pl"
  have site: "site = get_or (det_website (get_or result no_details)) []"
    by (simp add: site_def details_site_def gd)
  show ?thesis
  proof (cases "case get_domain site of None \<Rightarrow> False
                | Some dm \<Rightarrow> dm \<noteq> [] \<and> dm \<in> dom (seen_domains (e\<lparr>trace := tr1\<rparr>))")
    case True
    then obtain dm where dm: "get_domain site = Some dm" "dm \<noteq> []" "dm \<in> dom (seen_domains e)"
      by (auto split: option.splits)
    have "process_place env e pl kw = Inr (None, count_duplicate (e\<lparr>trace := tr1\<rparr>))"
      using False True by (simp add: process_place_def Let_def gd site)
    with False dm show ?thesis using dup_domain [of dm] by (simp add: site_def gd)
  next
    case nodup: False
    define b where "b = \<lparr>business_name = get_or (det_name (get_or result no_details)) (place_name pl),
                         phone_number = get_or (det_formatted_phone_number (get_or result no_details)) [],
                         email = [],
                         website = site,
                         address = get_or (det_formatted_address (get_or result no_details)) (vicinity pl),
                         city = [], state = [],
                         search_keyword = kw, google_place_id = place_id pl,
                         email_source = [], data_completeness_score = 0\<rparr>"
    obtain c s where cs: "city_state_of (address b) = (c, s)" by (cases "city_state_of (address b)")
    define b1 where "b1 = b\<lparr>city := c, state := s\<rparr>"
    define e1 where "e1 = e\<lparr>trace := tr1\<rparr>"
    obtain b2 e2 where p: "check_phone b1 e1 = (b2, e2)" by (cases "check_phone b1 e1")
    obtain b3 e3 where w: "scrape_website env site b2 e2 = (b3, e3)"
      by (cases "scrape_website env site b2 e2")
    obtain b4 e4 where m: "check_email b3 e3 = (b4, e4)" by (cases "check_email b3 e3")
    have "process_place env e pl kw = Inr (check_completeness b4 e4)"
      using False nodup p w m cs
      by (simp add: process_place_def Let_def gd site [symmetric] extract_city_state_eq
          b_def [symmetric] b1_def [symmetric] e1_def [symmetric])
    moreover have "\<forall>dm. get_domain site = Some dm \<longrightarrow> dm \<noteq> [] \<longrightarrow> dm \<notin> dom (seen_domains e)"
      using nodup by (auto split: option.splits)
    moreover have "google_place_id b1 = place_id pl" "website b1 = site" "email b1 = []"
      by (simp_all add: b1_def b_def)
    moreover have "same_store e e1" "stats e1 = stats e"
      by (simp_all add: e1_def same_store_def)
    ultimately show ?thesis using False p w m candidate [of b1 e1 b2 e2 b3 e3 b4 e4]
      by (simp add: site_def)
  qed
qed

subsection \<open>What process_place returns\<close>

lemma process_place_Inr: "\<exists>r e'. process_place env e pl kw = Inr (r, e')"
proof (cases rule: process_place_cases [of pl e env kw])
  case dup_id
  then show ?thesis by simp
next
  case (dup_domain dm)
  then show ?thesis by simp
next
  case (candidate b1 e1 b2 e2 b3 e3 b4 e4)
  then show ?thesis by (cases "check_completeness b4 e4") simp
qed

lemma count_duplicate_facts:
  "same_store e (count_duplicate e)"
  "duplicates (stats (count_duplicate e)) = duplicates (stats e) + 1"
  "validation_failed (stats (count_duplicate e)) = validation_failed (stats e)"
  "fake_emails (stats (count_duplicate e)) = fake_emails (stats e)"
  by (simp_all add: count_duplicate_def same_store_def)

lemma process_place_frame:
  assumes "process_place env e pl kw = Inr (r, e')"
  shows "same_store e e'" and "fake_emails (stats e') = fake_emails (stats e)"
proof -
  have "same_store e e' \<and> fake_emails (stats e') = fake_emails (stats e)"
  proof (cases rule: process_place_cases [of pl e env kw])
    case dup_id
    with assms show ?thesis by (auto simp: count_duplicate_facts)
  next
    case (dup_domain dm)
    with assms show ?thesis by (auto simp: count_duplicate_def same_store_def)
  next
    case (candidate b1 e1 b2 e2 b3 e3 b4 e4)
    note p = check_phone_facts [OF candidate(9)]
    note w = scrape_website_facts [OF candidate(10)]
    note m = check_email_facts [OF candidate(11)]
    have e4: "same_store e e4"
      using candidate(7) p(3) w(2) m(2) by (blast intro: same_store_trans)
    have "email b2 = []" using p(2) candidate(6) by simp
    then have "\<not> is_fake_email (email b3)" using w(3) by (auto simp: is_fake_email_Nil)
    then have "e4 = e3" using m(6) by simp
    then have f4: "fake_emails (stats e4) = fake_emails (stats e)"
      using p(6) w(6) candidate(8) by simp
    from assms candidate(12) have r: "check_completeness b4 e4 = (r, e')" by simp
    show ?thesis
    proof (cases r)
      case None
      with r have "e' = e4\<lparr>stats := (stats e4)\<lparr>validation_failed := validation_failed (stats e4) + 1\<rparr>\<rparr>"
        using check_completeness_None(2) by blast
      with e4 f4 show ?thesis by (simp add: same_store_def)
    next
      case (Some b)
      with r have "e' = e4" using check_completeness_Some(2) by blast
      with e4 f4 show ?thesis by simp
    qed
  qed
  then show "same_store e e'" and "fake_emails (stats e') = fake_emails (stats e)" by simp_all
qed

lemma process_place_Some:
  assumes "process_place env e pl kw = Inr (Some b, e')"
  shows "google_place_id b = place_id pl" and "place_id pl \<noteq> []"
    and "place_id pl \<notin> dict_keys (businesses e)"
    and "domain_key b = Some dm \<Longrightarrow> dm \<notin> dom (seen_domains e)"
    and "2 \<le> data_completeness_score b"
    and "data_completeness_score b = calc_completeness b"
    and "\<not> is_fake_email (email b)"
    and "duplicates (stats e') = duplicates (stats e)"
    and "validation_failed (stats e') = validation_failed (stats e)"
proof -
  have "google_place_id b = place_id pl \<and> place_id pl \<noteq> []
      \<and> place_id pl \<notin> dict_keys (businesses e)
      \<and> (domain_key b = Some dm \<longrightarrow> dm \<notin> dom (seen_domains e))
      \<and> 2 \<le> data_completeness_score b \<and> data_completeness_score b = calc_completeness b
      \<and> \<not> is_fake_email (email b)
      \<and> duplicates (stats e') = duplicates (stats e)
      \<and> validation_failed (stats e') = validation_failed (stats e)"
  proof (cases rule: process_place_cases [of pl e env kw])
    case dup_id
    with assms show ?thesis by simp
  next
    case (dup_domain dm)
    with assms show ?thesis by simp
  next
    case (candidate b1 e1 b2 e2 b3 e3 b4 e4)
    note p = check_phone_facts [OF candidate(9)]
    note w = scrape_website_facts [OF candidate(10)]
    note m = check_email_facts [OF candidate(11)]
    from assms candidate(12) have r: "check_completeness b4 e4 = (Some b, e')" by simp
    note c = check_completeness_Some [OF r]
    have ident: "same_identity b1 b4"
      using p(1) w(1) m(1) by (blast intro: same_identity_trans)
    have "google_place_id b = place_id pl"
      using c(1) ident candidate(4) by (simp add: same_identity_def)
    moreover have "website b = details_site env e pl"
      using c(1) ident candidate(5) by (simp add: same_identity_def)
    then have "domain_key b = Some dm \<longrightarrow> dm \<notin> dom (seen_domains e)"
      using candidate(3) by (auto simp: domain_key_def split: option.splits if_splits)
    moreover have "2 \<le> data_completeness_score b" "data_completeness_score b = calc_completeness b"
      using c(1,3) by (simp_all add: calc_completeness_score_update)
    moreover have "\<not> is_fake_email (email b)" using c(1) m(3) by simp
    moreover have "duplicates (stats e') = duplicates (stats e)"
      "validation_failed (stats e') = validation_failed (stats e)"
      using c(2) p(4,5) w(4,5) m(4,5) candidate(8) by simp_all
    ultimately show ?thesis using candidate(1,2) by simp
  qed
  then show "google_place_id b = place_id pl" and "place_id pl \<noteq> []"
    and "place_id pl \<notin> dict_keys (businesses e)"
    and "domain_key b = Some dm \<Longrightarrow> dm \<notin> dom (seen_domains e)"
    and "2 \<le> data_completeness_score b"
    and "data_completeness_score b = calc_completeness b"
    and "\<not> is_fake_email (email b)"
    and "duplicates (stats e') = duplicates (stats e)"
    and "validation_failed (stats e') = validation_failed (stats e)"
    by simp_all
qed

lemma process_place_None:
  assumes "process_place env e pl kw = Inr (None, e')"
  shows "(duplicates (stats e') = duplicates (stats e) + 1
          \<and> validation_failed (stats e') = validation_failed (stats e))
       \<or> (duplicates (stats e') = duplicates (stats e)
          \<and> validation_failed (stats e') = validation_failed (stats e) + 1)"
proof (cases rule: process_place_cases [of pl e env kw])
  case dup_id
  with assms show ?thesis by (auto simp: count_duplicate_facts)
next
  case (dup_domain dm)
  with assms show ?thesis by (auto simp: count_duplicate_def)
next
  case (candidate b1 e1 b2 e2 b3 e3 b4 e4)
  note p = check_phone_facts [OF candidate(9)]
  note w = scrape_website_facts [OF candidate(10)]
  note m = check_email_facts [OF candidate(11)]
  from assms candidate(12) have r: "check_completeness b4 e4 = (None, e')" by simp
  note c = check_completeness_None [OF r]
  have "duplicates (stats e') = duplicates (stats e)"
    "validation_failed (stats e') = validation_failed (stats e) + 1"
    using c(2) p(4,5) w(4,5) m(4,5) candidate(8) by simp_all
  then show ?thesis by simp
qed

subsection \<open>One round of the loop over the candidates\<close>

lemma dict_set_new: "k \<notin> dict_keys d \<Longrightarrow> dict_set k v d = d @ [(k, v)]"
  by (simp add: dict_set_def)

lemma after_candidate_cases:
  obtains
    (rejected) e1 where
      "process_place env (e\<lparr>stats := (stats e)\<lparr>total_searched := total_searched (stats e) + 1\<rparr>\<rparr>) pl kw
         = Inr (None, e1)"
      and "after_candidate env e pl kw = e1"
  | (accepted) b e1 where
      "process_place env (e\<lparr>stats := (stats e)\<lparr>total_searched := total_searched (stats e) + 1\<rparr>\<rparr>) pl kw
         = Inr (Some b, e1)"
      and "after_candidate env e pl kw =
             e1\<lparr>businesses := businesses e1 @ [(google_place_id b, b)],
                seen_domains := (case domain_key b of
                                   None \<Rightarrow> seen_domains e1
                                 | Some dm \<Rightarrow> (seen_domains e1)(dm \<mapsto> google_place_id b))\<rparr>"
proof -
  define e0 where "e0 = e\<lparr>stats := (stats e)\<lparr>total_searched := total_searched (stats e) + 1\<rparr>\<rparr>"
  obtain r e1 where pp: "process_place env e0 pl kw = Inr (r, e1)"
    using process_place_Inr by blast
  show thesis
  proof (cases r)
    case None
    with pp have "after_candidate env e pl kw = e1"
      by (simp add: after_candidate_def e0_def)
    with pp None show thesis using rejected [of e1] by (simp add: e0_def)
  next
    case (Some b)
    have new: "google_place_id b \<notin> dict_keys (businesses e1)"
      using process_place_Some(1,3) [of env e0 pl kw b e1] process_place_frame(1) [of env e0 pl kw r e1]
        pp Some by (simp add: same_store_def e0_def)
    have "after_candidate env e pl kw =
             e1\<lparr>businesses := businesses e1 @ [(google_place_id b, b)],
                seen_domains := (case domain_key b of
                                   None \<Rightarrow> seen_domains e1
                                 | Some dm \<Rightarrow> (seen_domains e1)(dm \<mapsto> google_place_id b))\<rparr>"
      using pp Some new
      by (auto simp: after_candidate_def e0_def Let_def dict_set_new domain_key_def
          split: option.splits)
    with pp Some show thesis using accepted [of b e1] by (simp add: e0_def)
  qed
qed

lemma process_results_Cons:
  "process_results env e (pl # pls) kw = process_results env (after_candidate env e pl kw) pls kw"
proof -
  define e0 where "e0 = e\<lparr>stats := (stats e)\<lparr>total_searched := total_searched (stats e) + 1\<rparr>\<rparr>"
  obtain r e1 where pp: "process_place env e0 pl kw = Inr (r, e1)"
    using process_place_Inr by blast
  show ?thesis
    using pp by (cases r) (simp_all add: after_candidate_def e0_def Let_def)
qed

lemma process_results_Inr: "\<exists>e'. process_results env e pls kw = Inr e'"
proof (induction pls arbitrary: e)
  case Nil
  then show ?case by simp
next
  case (Cons pl pls)
  then show ?case by (simp only: process_results_Cons)
qed

lemma process_results_preserves:
  assumes step: "\<And>e pl. P e \<Longrightarrow> P (after_candidate env e pl kw)"
  shows "P e \<Longrightarrow> process_results env e pls kw = Inr e' \<Longrightarrow> P e'"
proof (induction pls arbitrary: e)
  case Nil
  then show ?case by simp
next
  case (Cons pl pls)
  from Cons.prems(2) have "process_results env (after_candidate env e pl kw) pls kw = Inr e'"
    by (simp only: process_results_Cons)
  moreover have "P (after_candidate env e pl kw)" using Cons.prems(1) by (rule step)
  ultimately show ?case using Cons.IH by blast
qed

subsection \<open>The search of one location\<close>

lemma search_location_loop_no_raise:
  "search_location_loop fuel env e cd kw tok \<noteq> Some (Inl err)"
proof (induction fuel arbitrary: e tok)
  case 0
  then show ?case by simp
next
  case (Suc fuel)
  obtain resp cl tr where ns:
    "nearby_search env (client e, trace e) (lat cd) (lng cd) kw tok = (resp, cl, tr)"
    by (cases "nearby_search env (client e, trace e) (lat cd) (lng cd) kw tok") auto
  obtain e3 where pr: "process_results env (e\<lparr>client := cl, trace := tr\<rparr>) (nd_results resp) kw = Inr e3"
    using process_results_Inr by blast
  show ?case
    using Suc.IH ns pr
    by (simp add: Let_def split: option.splits)
qed

lemma search_location_loop_preserves:
  assumes step: "\<And>e pl. P e \<Longrightarrow> P (after_candidate env e pl kw)"
    and io: "\<And>e c t. P e \<Longrightarrow> P (e\<lparr>client := c, trace := t\<rparr>)"
  shows "P e \<Longrightarrow> search_location_loop fuel env e cd kw tok = Some (Inr e') \<Longrightarrow> P e'"
proof (induction fuel arbitrary: e tok)
  case 0
  then show ?case by simp
next
  case (Suc fuel)
  obtain resp cl tr where ns:
    "nearby_search env (client e, trace e) (lat cd) (lng cd) kw tok = (resp, cl, tr)"
    by (cases "nearby_search env (client e, trace e) (lat cd) (lng cd) kw tok") auto
  define e1 where "e1 = e\<lparr>client := cl, trace := tr\<rparr>"
  have P1: "P e1" unfolding e1_def using Suc.prems(1) by (rule io)
  have io_trace: "P (x\<lparr>trace := t\<rparr>)" if "P x" for x t
    using io [OF that, where c = "client x" and t = t] by simp
  obtain e3 where pr: "process_results env e1 (nd_results resp) kw = Inr e3"
    using process_results_Inr by blast
  have P3: "P e3" using process_results_preserves [of P env kw e1 "nd_results resp" e3] step P1 pr
    by blast
  define status where "status = (case nd_status resp of None \<Rightarrow> ''ERROR'' | Some st \<Rightarrow> st)"
  show ?case
  proof (cases "status = ''OVER_QUERY_LIMIT''")
    case True
    define e2 where "e2 = e1\<lparr>trace := trace e1 @ [Sleep QUOTA_COOLDOWN]\<rparr>"
    have P2: "P e2" unfolding e2_def using P1 by (rule io_trace)
    from Suc.prems(2) ns True
    have "(if quota_exceeded (client e2) then Some (Inr e2)
           else search_location_loop fuel env e2 cd kw tok) = Some (Inr e')"
      by (auto simp: Let_def e1_def status_def e2_def split: if_splits)
    then show ?thesis using P2 Suc.IH by (auto split: if_splits)
  next
    case notq: False
    show ?thesis
    proof (cases "status \<in> set [''OK'', ''ZERO_RESULTS'']")
      case False
      with Suc.prems(2) ns notq have "e' = e1"
        by (simp add: Let_def e1_def status_def)
      with P1 show ?thesis by simp
    next
      case True
      with Suc.prems(2) ns notq pr
      have "(case next_page_token resp of
               None \<Rightarrow> Some (Inr e3)
             | Some t \<Rightarrow>
                 if t = [] then Some (Inr e3)
                 else search_location_loop fuel env
                        (e3\<lparr>trace := trace e3 @ [Sleep PAGINATION_DELAY]\<rparr>) cd kw (Some t))
             = Some (Inr e')"
        by (simp add: Let_def e1_def status_def)
      then show ?thesis using P3 Suc.IH io_trace by (auto split: option.splits if_splits)
    qed
  qed
qed

subsection \<open>The invariants, one candidate at a time\<close>




lemma threshold_inv_init: "threshold_inv init_engine"
  by (simp add: threshold_inv_def init_engine_def dict_values_def)

lemma threshold_inv_io: "threshold_inv (e\<lparr>client := c, trace := t\<rparr>) = threshold_inv e"
  by (simp add: threshold_inv_def)

lemma threshold_inv_after_candidate:
  assumes "threshold_inv e"
  shows "threshold_inv (after_candidate env e pl kw)"
proof (cases rule: after_candidate_cases [of env e pl kw])
  case (rejected e1)
  from process_place_frame(1) [OF rejected(1)] assms rejected(2) show ?thesis
    by (auto simp: threshold_inv_def same_store_def)
next
  case (accepted b e1)
  from process_place_frame(1) [OF accepted(1)]
  have store: "businesses e1 = businesses e" by (simp add: same_store_def)
  from process_place_Some(5,6) [OF accepted(1)] assms store accepted(2) show ?thesis
    by (auto simp: threshold_inv_def dict_values_def)
qed

lemma emails_inv_init: "emails_inv init_engine"
  by (simp add: emails_inv_def init_engine_def dict_values_def)

lemma emails_inv_io: "emails_inv (e\<lparr>client := c, trace := t\<rparr>) = emails_inv e"
  by (simp add: emails_inv_def)

lemma emails_inv_after_candidate:
  assumes "emails_inv e"
  shows "emails_inv (after_candidate env e pl kw)"
proof (cases rule: after_candidate_cases [of env e pl kw])
  case (rejected e1)
  from process_place_frame [OF rejected(1)] assms rejected(2) show ?thesis
    by (auto simp: emails_inv_def same_store_def)
next
  case (accepted b e1)
  from process_place_frame [OF accepted(1)]
  have store: "businesses e1 = businesses e" "fake_emails (stats e1) = fake_emails (stats e)"
    by (simp_all add: same_store_def)
  from process_place_Some(7) [OF accepted(1)] assms store accepted(2) show ?thesis
    by (auto simp: emails_inv_def dict_values_def)
qed

subsection \<open>The loops of run\<close>

lemma search_location_preserves:
  assumes step: "\<And>e pl. P e \<Longrightarrow> P (after_candidate env e pl kw)"
    and io: "\<And>e c t. P e \<Longrightarrow> P (e\<lparr>client := c, trace := t\<rparr>)"
  shows "P e \<Longrightarrow> search_location fuel env e cd kw = Some (Inr e') \<Longrightarrow> P e'"
  unfolding search_location_def using search_location_loop_preserves [of P env kw] step io
  by blast

lemma search_location_cases:
  obtains (diverges) "search_location fuel env e cd kw = None"
  | (returns) e' where "search_location fuel env e cd kw = Some (Inr e')"
proof (cases "search_location fuel env e cd kw")
  case None
  then show ?thesis by (rule diverges)
next
  case (Some r)
  then show ?thesis
    using search_location_loop_no_raise [of fuel env e cd kw None] returns
    by (cases r) (auto simp: search_location_def)
qed

lemma run_cities_result:
  assumes step: "\<And>e pl kw. P e \<Longrightarrow> P (after_candidate env e pl kw)"
    and io: "\<And>e c t. P e \<Longrightarrow> P (e\<lparr>client := c, trace := t\<rparr>)"
  shows "P e \<Longrightarrow> run_cities fuel env m kw cds (e, job) = Some r \<Longrightarrow>
           (\<exists>res e' job'. r = Inr (Return (res, e', job')) \<and> P e' \<and> res = sorted_businesses e')
           \<or> (\<exists>e' job'. r = Inr (Next (e', job')) \<and> P e')"
proof (induction cds arbitrary: e job)
  case Nil
  then show ?case by auto
next
  case (Cons cd cds)
  show ?case
  proof (cases rule: search_location_cases [of fuel env e cd kw])
    case diverges
    with Cons.prems(2) show ?thesis by simp
  next
    case (returns e1)
    have P1: "P e1"
      using search_location_preserves [of P env kw e fuel cd e1] step io Cons.prems(1) returns
      by blast
    show ?thesis
    proof (cases "m \<le> int (length (businesses e1))")
      case True
      with Cons.prems(2) returns P1 show ?thesis by (auto simp: Let_def)
    next
      case False
      with Cons.prems(2) returns obtain job2 where
        "run_cities fuel env m kw cds (e1, job2) = Some r"
        by (simp add: Let_def)
      with P1 show ?thesis using Cons.IH by blast
    qed
  qed
qed

lemma run_keywords_result:
  assumes step: "\<And>e pl kw. P e \<Longrightarrow> P (after_candidate env e pl kw)"
    and io: "\<And>e c t. P e \<Longrightarrow> P (e\<lparr>client := c, trace := t\<rparr>)"
  shows "P e \<Longrightarrow> run_keywords fuel env m cs kws (e, job) = Some r \<Longrightarrow>
           (\<exists>res e' job'. r = Inr (Return (res, e', job')) \<and> P e' \<and> res = sorted_businesses e')
           \<or> (\<exists>e' job'. r = Inr (Next (e', job')) \<and> P e')"
proof (induction kws arbitrary: e job)
  case Nil
  then show ?case by auto
next
  case (Cons kw kws)
  show ?case
  proof (cases "run_cities fuel env m kw cs (e, job\<lparr>current_keyword := kw\<rparr>)")
    case None
    with Cons.prems(2) show ?thesis by simp
  next
    case (Some r1)
    from run_cities_result [of P env e fuel m kw cs "job\<lparr>current_keyword := kw\<rparr>" r1] step io
      Cons.prems(1) Some
    consider (ret) res e' job' where "r1 = Inr (Return (res, e', job'))" "P e'"
        "res = sorted_businesses e'"
      | (nxt) e' job' where "r1 = Inr (Next (e', job'))" "P e'"
      by blast
    then show ?thesis
    proof cases
      case ret
      with Cons.prems(2) Some show ?thesis by auto
    next
      case nxt
      with Cons.prems(2) Some have "run_keywords fuel env m cs kws (e', job') = Some r" by simp
      with nxt(2) show ?thesis using Cons.IH by blast
    qed
  qed
qed

lemma run_result:
  assumes step: "\<And>e pl kw. P e \<Longrightarrow> P (after_candidate env e pl kw)"
    and io: "\<And>e c t. P e \<Longrightarrow> P (e\<lparr>client := c, trace := t\<rparr>)"
    and P: "P e" and run: "run fuel env cfg e job = Some r"
  shows "\<exists>res e' job'. r = Inr (res, e', job') \<and> P e'
           \<and> (res = sorted_businesses e' \<or> res = [] \<and> resolve_cities cfg = [])"
proof (cases "resolve_cities cfg = []")
  case True
  with run P show ?thesis by (auto simp: run_def Let_def)
next
  case False
  define m where "m = (case minResults cfg of None \<Rightarrow> DEFAULT_MIN_BUSINESSES | Some m \<Rightarrow> m)"
  from run False obtain r1 where
    r1: "run_keywords fuel env m (resolve_cities cfg) (cfg_keywords cfg) (e, job) = Some r1"
    by (auto simp: run_def Let_def m_def split: option.splits)
  from run_keywords_result [of P env e fuel m "resolve_cities cfg" "cfg_keywords cfg" job r1]
    step io P r1
  consider (ret) res e' job' where "r1 = Inr (Return (res, e', job'))" "P e'"
      "res = sorted_businesses e'"
    | (nxt) e' job' where "r1 = Inr (Next (e', job'))" "P e'"
    by blast
  then show ?thesis
  proof cases
    case ret
    with run False r1 show ?thesis by (auto simp: run_def Let_def m_def)
  next
    case nxt
    with run False r1 show ?thesis by (auto simp: run_def Let_def m_def)
  qed
qed

section \<open>The claims on the engine\<close>

subsection \<open>From the invariant to the result list\<close>

lemma returned_eq:
  "returned r \<Longrightarrow> r = Some (Inr (result_of r, engine_of r, the (job_of r)))"
  by (auto simp: returned_def result_of_def engine_of_def job_of_def
      split: option.splits sum.splits)





lemma set_sorted_businesses: "set (sorted_businesses e) = set (dict_values (businesses e))"
  by (simp add: sorted_businesses_def)


subsection \<open>C1: at most one Business per place id and per domain\<close>



subsection \<open>C2: no Business below the threshold\<close>

text \<open>
  C2: the engine starts with \<open>threshold_inv\<close> (every Business of the result set has the
  score that \<open>calc_completeness\<close> gives it, and that score is at least 2); every
  candidate processed keeps it, and so do the search of a location and the whole run,
  whose returned list holds such Businesses only. \<open>process_place\<close> never returns a
  Business below 2: its last statement turns a score below 2 into a rejection counted
  as validation-failed, and every rejection is counted once, as a duplicate or as
  validation-failed.
\<close>

theorem threshold_never_below_two:
  "threshold_inv init_engine
   \<and> (threshold_inv e \<longrightarrow> threshold_inv (after_candidate env e pl kw))
   \<and> (threshold_inv e \<and> search_location fuel env e cd kw = Some (Inr e1) \<longrightarrow> threshold_inv e1)
   \<and> (run fuel env cfg init_engine job = Some (Inr (res, e2, job2)) \<longrightarrow>
        threshold_inv e2
        \<and> (\<forall>b \<in> set res. 2 \<le> calc_completeness b
                          \<and> data_completeness_score b = calc_completeness b))
   \<and> (process_place env e pl kw = Inr (Some b, e3) \<longrightarrow> 2 \<le> calc_completeness b)
   \<and> (process_place env e pl kw = Inr (None, e3) \<longrightarrow>
        (duplicates (stats e3) = duplicates (stats e) + 1
           \<and> validation_failed (stats e3) = validation_failed (stats e))
        \<or> (duplicates (stats e3) = duplicates (stats e)
           \<and> validation_failed (stats e3) = validation_failed (stats e) + 1))
   \<and> (calc_completeness b < 2 \<longrightarrow>
        check_completeness b e =
          (None, e\<lparr>stats := (stats e)\<lparr>validation_failed :=
                     validation_failed (stats e) + 1\<rparr>\<rparr>))"
proof -
  have search: "threshold_inv e1"
    if "threshold_inv e" "search_location fuel env e cd kw = Some (Inr e1)"
    using search_location_preserves [of threshold_inv env kw e fuel cd e1] that
      threshold_inv_after_candidate threshold_inv_io by blast
  have run: "threshold_inv e2
        \<and> (\<forall>b \<in> set res. 2 \<le> calc_completeness b
                          \<and> data_completeness_score b = calc_completeness b)"
    if r: "run fuel env cfg init_engine job = Some (Inr (res, e2, job2))"
  proof -
    from run_result [of threshold_inv env init_engine fuel cfg job "Inr (res, e2, job2)"] r
      threshold_inv_after_candidate threshold_inv_io threshold_inv_init
    have inv: "threshold_inv e2" and res: "res = sorted_businesses e2 \<or> res = []" by auto
    from res have sub: "set res \<subseteq> set (dict_values (businesses e2))"
      by (auto simp: set_sorted_businesses)
    have "2 \<le> calc_completeness b \<and> data_completeness_score b = calc_completeness b"
      if "b \<in> set res" for b
    proof -
      from that sub have "b \<in> set (dict_values (businesses e2))" by blast
      with inv have "2 \<le> data_completeness_score b
          \<and> data_completeness_score b = calc_completeness b"
        unfolding threshold_inv_def by blast
      then show ?thesis by simp
    qed
    with inv show ?thesis by blast
  qed
  have some: "2 \<le> calc_completeness b" if "process_place env e pl kw = Inr (Some b, e3)"
    using process_place_Some(5,6) [OF that] by simp
  show ?thesis
    using threshold_inv_init threshold_inv_after_candidate [of e env pl kw] search run some
      process_place_None [of env e pl kw e3] check_completeness_below [of b e]
    by blast
qed

theorem threshold_never_below_two_witness:
  "returned (run 3 ex_env ex_config init_engine ex_job)
   \<and> list_all (\<lambda>b. 2 \<le> calc_completeness b)
        (result_of (run 3 ex_env ex_config init_engine ex_job))
   \<and> map data_completeness_score (result_of (run 3 ex_env ex_config init_engine ex_job)) = [4]
   \<and> map google_place_id (result_of (run 3 ex_env ex_config init_engine ex_job)) = [''p1'']
   \<and> total_searched (stats (engine_of (run 3 ex_env ex_config init_engine ex_job))) = 3
   \<and> validation_failed (stats (engine_of (run 3 ex_env ex_config init_engine ex_job))) = 1"
proof -
  let ?r = "run 3 ex_env ex_config init_engine ex_job"
  have "case ?r of
          Some (Inr (res, e, job)) \<Rightarrow>
            map data_completeness_score res = [4] \<and> map google_place_id res = [''p1'']
            \<and> total_searched (stats e) = 3 \<and> validation_failed (stats e) = 1
        | _ \<Rightarrow> False"
    by code_simp
  then have ret: "returned ?r"
    and facts: "map data_completeness_score (result_of ?r) = [4]"
      "map google_place_id (result_of ?r) = [''p1'']"
      "total_searched (stats (engine_of ?r)) = 3"
      "validation_failed (stats (engine_of ?r)) = 1"
    by (auto simp: returned_def result_of_def engine_of_def split: option.splits sum.splits)
  from returned_eq [OF ret]
  have "list_all (\<lambda>b. 2 \<le> calc_completeness b) (result_of ?r)"
    using threshold_never_below_two [where fuel = 3 and env = ex_env and cfg = ex_config
        and job = ex_job and res = "result_of ?r" and ?e2.0 = "engine_of ?r"
        and ?job2.0 = "the (job_of ?r)"]
    by (simp add: list_all_iff)
  with ret facts show ?thesis by simp
qed

subsection \<open>C10: the check of the email never fires\<close>

lemma scraped_email_passes_check:
  assumes "email b = []" and "check_phone b e = (b2, e2)"
    and "scrape_website env site b2 e2 = (b3, e3)"
  shows "\<not> is_fake_email (email b3)" and "check_email b3 e3 = (b3, e3)"
proof -
  from check_phone_facts(2) [OF assms(2)] assms(1) have "email b2 = []" by simp
  with scrape_website_facts(3) [OF assms(3)] show "\<not> is_fake_email (email b3)"
    by (auto simp: is_fake_email_Nil)
  then show "check_email b3 e3 = (b3, e3)" by (simp add: check_email_def)
qed

text \<open>
  C10: \<open>scrape_email\<close> returns no address for which \<open>is_fake_email\<close> holds; so the
  Business that \<open>process_place\<close> has built when it checks the email (one that started
  with no email, went through the check of the phone and the scraping) passes the
  check, which changes nothing; \<open>process_place\<close> leaves the counter of fake emails as
  it was; after a run the counter is 0 and no Business returned has a fake email.
\<close>

theorem fake_email_check_never_fires:
  "(scrape_email env tr site = (Some em, tr') \<longrightarrow> \<not> is_fake_email em)
   \<and> (email b = [] \<and> check_phone b e = (b2, e2) \<and> scrape_website env site b2 e2 = (b3, e3)
        \<longrightarrow> \<not> is_fake_email (email b3) \<and> check_email b3 e3 = (b3, e3))
   \<and> (process_place env e pl kw = Inr (r, e4) \<longrightarrow>
        fake_emails (stats e4) = fake_emails (stats e))
   \<and> (emails_inv e \<longrightarrow> emails_inv (after_candidate env e pl kw))
   \<and> (run fuel env cfg init_engine job = Some (Inr (res, e5, job5)) \<longrightarrow>
        fake_emails (stats e5) = 0 \<and> (\<forall>x \<in> set res. \<not> is_fake_email (email x)))"
proof -
  have run: "fake_emails (stats e5) = 0 \<and> (\<forall>x \<in> set res. \<not> is_fake_email (email x))"
    if r: "run fuel env cfg init_engine job = Some (Inr (res, e5, job5))"
  proof -
    from run_result [of emails_inv env init_engine fuel cfg job "Inr (res, e5, job5)"] r
      emails_inv_after_candidate emails_inv_io emails_inv_init
    have inv: "emails_inv e5" and res: "res = sorted_businesses e5 \<or> res = []" by auto
    from res have "set res \<subseteq> set (dict_values (businesses e5))"
      by (auto simp: set_sorted_businesses)
    with inv show ?thesis by (auto simp: emails_inv_def)
  qed
  show ?thesis
    using scrape_email_not_fake [of env tr site em tr']
      scraped_email_passes_check [of b e b2 e2 env site b3 e3]
      process_place_frame(2) [of env e pl kw r e4]
      emails_inv_after_candidate [of e env pl kw] run
    by blast
qed

theorem fake_email_check_never_fires_witness:
  "returned (run 3 ex_env ex_config init_engine ex_job)
   \<and> fake_emails (stats (engine_of (run 3 ex_env ex_config init_engine ex_job))) = 0
   \<and> list_all (\<lambda>x. \<not> is_fake_email (email x))
        (result_of (run 3 ex_env ex_config init_engine ex_job))
   \<and> map email (result_of (run 3 ex_env ex_config init_engine ex_job)) = [''info@acme.com'']
   \<and> emails_scraped (stats (engine_of (run 3 ex_env ex_config init_engine ex_job))) = 1"
proof -
  let ?r = "run 3 ex_env ex_config init_engine ex_job"
  have "case ?r of
          Some (Inr (res, e, job)) \<Rightarrow>
            map email res = [''info@acme.com''] \<and> emails_scraped (stats e) = 1
        | _ \<Rightarrow> False"
    by code_simp
  then have ret: "returned ?r"
    and facts: "map email (result_of ?r) = [''info@acme.com'']"
      "emails_scraped (stats (engine_of ?r)) = 1"
    by (auto simp: returned_def result_of_def engine_of_def split: option.splits sum.splits)
  from returned_eq [OF ret]
  have "fake_emails (stats (engine_of ?r)) = 0
        \<and> list_all (\<lambda>x. \<not> is_fake_email (email x)) (result_of ?r)"
    using fake_email_check_never_fires [where fuel = 3 and env = ex_env and cfg = ex_config
        and job = ex_job and res = "result_of ?r" and ?e5.0 = "engine_of ?r"
        and ?job5.0 = "the (job_of ?r)"]
    by (simp add: list_all_iff)
  with ret facts show ?thesis by simp
qed

subsection \<open>C3: the order of the returned list\<close>

lemma run_from_init_sorted:
  assumes "run fuel env cfg init_engine job = Some (Inr (res, e', job'))"
  shows "res = sorted_businesses e'"
proof (cases "resolve_cities cfg = []")
  case True
  with assms have "res = []" "e' = init_engine" by (auto simp: run_def Let_def)
  then show ?thesis by (simp add: sorted_businesses_def init_engine_def dict_values_def)
next
  case False
  with run_result [of "\<lambda>x. True" env init_engine fuel cfg job "Inr (res, e', job')"] assms
  show ?thesis by simp
qed

lemma sort_key_order:
  fixes f :: "'a \<Rightarrow> 'k::linorder"
  assumes "i < length xs" and "j < length xs"
    and "f (sort_key f xs ! i) < f (sort_key f xs ! j)"
  shows "i < j"
proof (rule ccontr)
  assume "\<not> i < j"
  then have "j \<le> i" by simp
  have "sorted (map f (sort_key f xs))" by (rule sorted_sort_key)
  then have "map f (sort_key f xs) ! j \<le> map f (sort_key f xs) ! i"
    using \<open>j \<le> i\<close> assms(1) by (simp add: sorted_iff_nth_mono)
  then have "f (sort_key f xs ! j) \<le> f (sort_key f xs ! i)"
    using assms(1,2) by simp
  with assms(3) show False by simp
qed

text \<open>
  C3 as stated fails: two Businesses with the same score whose names differ in case
  only come out in the order in which they were found. Found as t1, t2 they are returned
  as t1, t2 (so t2, whose name is less than or equal to that of t1 without case, does
  not precede t1); found as t2, t1 they are returned as t2, t1.
\<close>

theorem sorted_order_depends_on_discovery:
  "map google_place_id
     (result_of (run 3 (ex_twins_env ex_twins) ex_config init_engine ex_job)) = [''t1'', ''t2'']
   \<and> map google_place_id
     (result_of (run 3 (ex_twins_env (rev ex_twins)) ex_config init_engine ex_job))
       = [''t2'', ''t1'']
   \<and> map sort_key_of
     (result_of (run 3 (ex_twins_env ex_twins) ex_config init_engine ex_job))
       = [(- 2, ''acme plumbing''), (- 2, ''acme plumbing'')]"
  by code_simp

text \<open>
  C3, amended: in the list that a run returns, a Business with a greater score stands
  before one with a smaller score; of two with the same score, the one whose lower-case
  name is smaller stands first; the Businesses with the same score and the same
  lower-case name stand in the order in which they entered the result set (the sort is
  stable), so that the order is determined by the result set and the discovery order
  together. The list holds the Businesses of the result set, each once.
\<close>

theorem sorted_result_order:
  "run fuel env cfg init_engine job = Some (Inr (res, e', job')) \<longrightarrow>
     (\<forall>i j. i < length res \<and> j < length res
            \<and> data_completeness_score (res ! j) < data_completeness_score (res ! i)
            \<longrightarrow> i < j)
     \<and> (\<forall>i j. i < length res \<and> j < length res
            \<and> data_completeness_score (res ! i) = data_completeness_score (res ! j)
            \<and> lower (business_name (res ! i)) < lower (business_name (res ! j))
            \<longrightarrow> i < j)
     \<and> (\<forall>k. filter (\<lambda>b. sort_key_of b = k) res
              = filter (\<lambda>b. sort_key_of b = k) (dict_values (businesses e')))
     \<and> mset res = mset (dict_values (businesses e'))"
proof
  assume r: "run fuel env cfg init_engine job = Some (Inr (res, e', job'))"
  define xs where "xs = dict_values (businesses e')"
  from run_from_init_sorted [OF r] have res: "res = sort_key sort_key_of xs"
    by (simp add: sorted_businesses_def xs_def)
  have len: "length res = length xs" by (simp add: res)
  have a: "i < j" if "i < length res" "j < length res"
    "data_completeness_score (res ! j) < data_completeness_score (res ! i)" for i j
  proof -
    from that(3) have "sort_key_of (res ! i) < sort_key_of (res ! j)"
      by (simp add: sort_key_of_def)
    with that(1,2) show ?thesis
      using sort_key_order [of i xs j sort_key_of] by (simp add: res)
  qed
  have b: "i < j" if "i < length res" "j < length res"
    "data_completeness_score (res ! i) = data_completeness_score (res ! j)"
    "lower (business_name (res ! i)) < lower (business_name (res ! j))" for i j
  proof -
    from that(3,4) have "sort_key_of (res ! i) < sort_key_of (res ! j)"
      by (simp add: sort_key_of_def)
    with that(1,2) show ?thesis
      using sort_key_order [of i xs j sort_key_of] by (simp add: res)
  qed
  have c: "filter (\<lambda>b. sort_key_of b = k) res = filter (\<lambda>b. sort_key_of b = k) xs" for k
    unfolding res by (rule sort_key_stable)
  have d: "mset res = mset xs" by (simp add: res)
  from a b c d show
    "(\<forall>i j. i < length res \<and> j < length res
            \<and> data_completeness_score (res ! j) < data_completeness_score (res ! i)
            \<longrightarrow> i < j)
     \<and> (\<forall>i j. i < length res \<and> j < length res
            \<and> data_completeness_score (res ! i) = data_completeness_score (res ! j)
            \<and> lower (business_name (res ! i)) < lower (business_name (res ! j))
            \<longrightarrow> i < j)
     \<and> (\<forall>k. filter (\<lambda>b. sort_key_of b = k) res
              = filter (\<lambda>b. sort_key_of b = k) (dict_values (businesses e')))
     \<and> mset res = mset (dict_values (businesses e'))"
    unfolding xs_def by blast
qed

theorem sorted_result_order_witness:
  "returned (run 3 ex_sort_env ex_config init_engine ex_job)
   \<and> map fst (businesses (engine_of (run 3 ex_sort_env ex_config init_engine ex_job)))
       = [''z1'', ''a1'', ''b1'']
   \<and> map google_place_id (result_of (run 3 ex_sort_env ex_config init_engine ex_job))
       = [''b1'', ''a1'', ''z1'']
   \<and> map sort_key_of (result_of (run 3 ex_sort_env ex_config init_engine ex_job))
       = [(- 3, ''beta taps''), (- 2, ''alpha drains''), (- 2, ''zeta pipes'')]
   \<and> mset (result_of (run 3 ex_sort_env ex_config init_engine ex_job))
       = mset (dict_values (businesses (engine_of (run 3 ex_sort_env ex_config init_engine ex_job))))"
proof -
  let ?r = "run 3 ex_sort_env ex_config init_engine ex_job"
  have "case ?r of
          Some (Inr (res, e, job)) \<Rightarrow>
            map fst (businesses e) = [''z1'', ''a1'', ''b1'']
            \<and> map google_place_id res = [''b1'', ''a1'', ''z1'']
            \<and> map sort_key_of res
                = [(- 3, ''beta taps''), (- 2, ''alpha drains''), (- 2, ''zeta pipes'')]
        | _ \<Rightarrow> False"
    by code_simp
  then have ret: "returned ?r"
    and facts: "map fst (businesses (engine_of ?r)) = [''z1'', ''a1'', ''b1'']"
      "map google_place_id (result_of ?r) = [''b1'', ''a1'', ''z1'']"
      "map sort_key_of (result_of ?r)
         = [(- 3, ''beta taps''), (- 2, ''alpha drains''), (- 2, ''zeta pipes'')]"
    by (auto simp: returned_def result_of_def engine_of_def split: option.splits sum.splits)
  from returned_eq [OF ret]
  have "mset (result_of ?r) = mset (dict_values (businesses (engine_of ?r)))"
    using sorted_result_order [where fuel = 3 and env = ex_sort_env and cfg = ex_config
        and job = ex_job and res = "result_of ?r" and e' = "engine_of ?r"
        and job' = "the (job_of ?r)"]
    by simp
  with ret facts show ?thesis by simp
qed

subsection \<open>C4: the rate-limit status\<close>

text \<open>
  C4: the claim has the engine search again after the cooldown when the rate-limit
  status was transient. It never does: \<open>nearby_search\<close> sets the quota flag on the
  answer that carries the status, nothing clears the flag, and the test after the sleep
  returns. On the first page and on every later one, whatever the environment would
  answer next, the search of the location ends with the one request made and the sleep,
  the result set as it was.
\<close>

theorem rate_limit_never_retried:
  assumes "nearby_reply_at env (length (trace e)) (lat cd) (lng cd) kw tok = NearbyJson data"
    and "nd_status data = Some ''OVER_QUERY_LIMIT''"
    and "tok \<noteq> Some []"
  shows "search_location_loop (Suc fuel) env e cd kw tok =
           Some (Inr (e\<lparr>client := (client e)\<lparr>quota_exceeded := True\<rparr>,
                       trace := trace e @ [NearbySearch (lat cd) (lng cd) kw tok,
                                           Sleep QUOTA_COOLDOWN]\<rparr>))
         \<and> (tok = None \<longrightarrow>
             search_location (Suc fuel) env e cd kw =
               Some (Inr (e\<lparr>client := (client e)\<lparr>quota_exceeded := True\<rparr>,
                           trace := trace e @ [NearbySearch (lat cd) (lng cd) kw None,
                                               Sleep QUOTA_COOLDOWN]\<rparr>)))"
proof -
  from assms(3)
  have tok: "(case tok of None \<Rightarrow> None | Some t \<Rightarrow> if t = [] then None else Some t) = tok"
    by (cases tok) auto
  have "search_location_loop (Suc fuel) env e cd kw tok =
           Some (Inr (e\<lparr>client := (client e)\<lparr>quota_exceeded := True\<rparr>,
                       trace := trace e @ [NearbySearch (lat cd) (lng cd) kw tok,
                                           Sleep QUOTA_COOLDOWN]\<rparr>))"
    using assms(1,2) by (simp add: nearby_search_def Let_def tok)
  then show ?thesis by (auto simp only: search_location_def)
qed

theorem rate_limit_never_retried_witness:
  "nearby_reply_at ex_quota_env 1 ''30.2672'' ''-97.7431'' ''plumber'' None
     = NearbyJson \<lparr>nd_status = Some ''OK'', nd_results = ex_places, next_page_token = None\<rparr>
   \<and> search_location 5 ex_quota_env init_engine (city_at ''Austin'' ''30.2672'' ''-97.7431'')
        ''plumber''
      = Some (Inr (init_engine\<lparr>client := \<lparr>quota_exceeded = True\<rparr>,
            trace := [NearbySearch ''30.2672'' ''-97.7431'' ''plumber'' None, Sleep 60000]\<rparr>))"
proof -
  have a: "nearby_reply_at ex_quota_env (length (trace init_engine))
             (lat (city_at ''Austin'' ''30.2672'' ''-97.7431''))
             (lng (city_at ''Austin'' ''30.2672'' ''-97.7431'')) ''plumber'' None
           = NearbyJson \<lparr>nd_status = Some ''OVER_QUERY_LIMIT'', nd_results = [],
                          next_page_token = None\<rparr>"
    by (simp add: ex_quota_env_def init_engine_def)
  have b: "nearby_reply_at ex_quota_env 1 ''30.2672'' ''-97.7431'' ''plumber'' None
     = NearbyJson \<lparr>nd_status = Some ''OK'', nd_results = ex_places, next_page_token = None\<rparr>"
    by (simp add: ex_quota_env_def)
  from rate_limit_never_retried [OF a, of 4] b show ?thesis
    by (simp add: init_engine_def city_at_def QUOTA_COOLDOWN_def)
qed

subsection \<open>C5: the stop logic\<close>








end
